theory Spec2Isabelle
  imports Main "HOL-Library.While_Combinator" "HOL-Library.Multiset"
    "HOL-Library.Signed_Division"
begin

section \<open>The demultiplexer of sfeMovie (Demuxer.cpp)\<close>

text \<open>
  A shallow embedding of \<^verbatim>\<open>sfe::Demuxer\<close>. The object is a record of its members,
  every member function takes the record and returns the updated one, and a
  \<^verbatim>\<open>CHECK\<close> that throws \<^verbatim>\<open>std::runtime_error\<close> is a value of type \<open>error\<close>.

  Stream objects are shared through \<^verbatim>\<open>std::shared_ptr\<close> and compared by address
  (\<^verbatim>\<open>targetStream.get() == &stream\<close>, the ordering of
  \<^verbatim>\<open>std::set<std::shared_ptr<Stream>>\<close>), so they live in an explicit store
  \<open>objects\<close> from addresses (\<open>nat\<close>) to objects, and a pointer is an address
  (\<open>nat option\<close> where it may be null).

  Three members are ghost state that records effects the C++ performs on the
  outside: \<open>freed\<close> lists the packets handed to \<^verbatim>\<open>av_free_packet\<close>/\<^verbatim>\<open>av_free\<close>,
  \<open>delivered\<close> lists the calls of \<^verbatim>\<open>pushEncodedData\<close> (receiver, packet), and
  \<open>errlog\<close> lists the calls of \<^verbatim>\<open>sfeLogError\<close>/\<^verbatim>\<open>sfeLogWarning\<close>.
  Debug logging, the mutex \<^verbatim>\<open>m_synchronized\<close> and the observer registration at
  the timer are not modelled. Memory allocation is taken to succeed, so the
  \<^verbatim>\<open>CHECK(pkt, ...)\<close> of \<^verbatim>\<open>readPacket\<close> never fires.
\<close>

subsection \<open>Data\<close>

datatype AVMediaType =
    AVMEDIA_TYPE_UNKNOWN
  | AVMEDIA_TYPE_VIDEO
  | AVMEDIA_TYPE_AUDIO
  | AVMEDIA_TYPE_DATA
  | AVMEDIA_TYPE_SUBTITLE
  | AVMEDIA_TYPE_ATTACHMENT

datatype MediaType = Video | Unknown

datatype Status = Stopped | Paused | Playing

datatype error = runtime_error string | logic_error string

datatype log_entry =
    StreamLoadError string string
  | SeekError int
  | DurationWarning

fun AVMediaTypeToMediaType :: "AVMediaType \<Rightarrow> MediaType" where
  "AVMediaTypeToMediaType AVMEDIA_TYPE_VIDEO = Video"
| "AVMediaTypeToMediaType _ = Unknown"

text \<open>
  A packet is the address of the \<^verbatim>\<open>AVPacket\<close> that \<^verbatim>\<open>readPacket\<close> allocated and the
  one field the demultiplexer reads, \<^verbatim>\<open>stream_index\<close>.
\<close>

record AVPacket =
  pkt_addr :: nat
  stream_index :: int

text \<open>\<open>None\<close> is \<^verbatim>\<open>AV_NOPTS_VALUE\<close>.\<close>

record AVStream =
  st_index :: int
  st_codec_type :: AVMediaType
  st_duration :: "int option"

text \<open>
  The part of \<^verbatim>\<open>AVFormatContext\<close> that the demultiplexer reads. \<open>ctx_packets\<close> is the
  read cursor: the packets that the next calls of \<^verbatim>\<open>av_read_frame\<close> return, in
  order, before the first call that fails. \<open>ctx_seek_to_pts\<close> is
  \<^verbatim>\<open>iformat->flags & AVFMT_SEEK_TO_PTS\<close>.
\<close>

record AVFormatContext =
  ctx_duration :: "int option"
  ctx_start_time :: "int option"
  ctx_seek_to_pts :: bool
  ctx_streams :: "AVStream list"
  ctx_packets :: "AVPacket list"

text \<open>
  Modelled from the spec: the class \<^verbatim>\<open>Stream\<close>/\<^verbatim>\<open>VideoStream\<close> is not part of the
  sources at hand. The spec gives its interface: \<^verbatim>\<open>ownsPacket(packet)\<close> "matches
  by embedded stream identifier", \<^verbatim>\<open>acceptPacket(packet)\<close> accepts a pushed packet,
  \<^verbatim>\<open>isPassive()\<close>, \<^verbatim>\<open>connect()/disconnect()\<close>, \<^verbatim>\<open>kind()\<close>. A stream object is
  therefore its identifier, its kind, whether it is passive, whether it is
  connected, and the packets pushed to it so far. \<^verbatim>\<open>needsMoreData()\<close> is left
  open: it is a parameter \<open>needsMoreData :: Stream \<Rightarrow> bool\<close> of the feed loop.
\<close>

record Stream =
  m_streamIndex :: int
  m_streamKind :: MediaType
  m_passive :: bool
  m_connected :: bool
  m_packetList :: "AVPacket list"

text \<open>What the store holds at an address where no stream was allocated.\<close>

definition no_stream :: Stream where
  "no_stream =
     \<lparr>m_streamIndex = 0, m_streamKind = Unknown, m_passive = False, m_connected = False,
      m_packetList = []\<rparr>"

definition canUsePacket :: "Stream \<Rightarrow> AVPacket \<Rightarrow> bool" where
  \<comment> \<open>Modelled from the spec: \<^verbatim>\<open>Stream::canUsePacket\<close> matches by embedded stream identifier.\<close>
  "canUsePacket s packet = (stream_index packet = m_streamIndex s)"

definition isPassive :: "Stream \<Rightarrow> bool" where
  \<comment> \<open>Modelled from the spec: \<^verbatim>\<open>Stream::isPassive\<close>.\<close>
  "isPassive s = m_passive s"

definition getStreamKind :: "Stream \<Rightarrow> MediaType" where
  \<comment> \<open>Modelled from the spec: \<^verbatim>\<open>Stream::getStreamKind\<close>.\<close>
  "getStreamKind s = m_streamKind s"

record Demuxer =
  m_formatCtx :: AVFormatContext
  m_eofReached :: bool
  m_streams :: "(int \<times> nat) list"
  m_ignoredStreams :: "(int \<times> string) list"
  m_timer :: Status
  m_connectedVideoStream :: "nat option"
  m_duration :: int
  m_pendingDataForActiveStreams :: "AVPacket list"
  objects :: "nat \<Rightarrow> Stream"
  freed :: "AVPacket list"
  delivered :: "(nat \<times> AVPacket) list"
  errlog :: "log_entry list"

text \<open>
  \<^verbatim>\<open>std::map<int, T>\<close> is an association list kept in ascending key order;
  \<^verbatim>\<open>m[k] = v\<close> is \<open>map_assign\<close>, \<^verbatim>\<open>m.find(k)\<close> is \<open>map_of\<close>.
\<close>

fun map_assign :: "int \<Rightarrow> 'v \<Rightarrow> (int \<times> 'v) list \<Rightarrow> (int \<times> 'v) list" where
  "map_assign k v [] = [(k, v)]"
| "map_assign k v ((k', v') # m) =
     (if k < k' then (k, v) # (k', v') # m
      else if k = k' then (k, v) # m
      else (k', v') # map_assign k v m)"

text \<open>
  \<^verbatim>\<open>std::set<std::shared_ptr<Stream>>\<close> orders its elements by the address they
  point to: it is the ascending list of the addresses, without duplicates.
\<close>

definition set_insert :: "nat \<Rightarrow> nat list \<Rightarrow> nat list" where
  "set_insert a s = (if a \<in> set s then s else insort a s)"

subsection \<open>Stream objects in the store\<close>

definition pushEncodedData :: "nat \<Rightarrow> AVPacket \<Rightarrow> Demuxer \<Rightarrow> Demuxer" where
  \<comment> \<open>Modelled from the spec: \<^verbatim>\<open>Stream::pushEncodedData\<close> (\<^verbatim>\<open>acceptPacket\<close>) takes the packet.\<close>
  "pushEncodedData target packet d =
     d\<lparr>objects := (objects d)(target := (objects d target)
            \<lparr>m_packetList := m_packetList (objects d target) @ [packet]\<rparr>),
       delivered := delivered d @ [(target, packet)]\<rparr>"

definition connect :: "nat \<Rightarrow> Demuxer \<Rightarrow> Demuxer" where
  \<comment> \<open>Modelled from the spec: \<^verbatim>\<open>VideoStream::connect\<close>.\<close>
  "connect a d = d\<lparr>objects := (objects d)(a := (objects d a)\<lparr>m_connected := True\<rparr>)\<rparr>"

definition disconnect :: "nat \<Rightarrow> Demuxer \<Rightarrow> Demuxer" where
  \<comment> \<open>Modelled from the spec: \<^verbatim>\<open>VideoStream::disconnect\<close>.\<close>
  "disconnect a d = d\<lparr>objects := (objects d)(a := (objects d a)\<lparr>m_connected := False\<rparr>)\<rparr>"

definition timer_pause :: "Demuxer \<Rightarrow> Demuxer" where
  \<comment> \<open>Modelled from the spec: \<^verbatim>\<open>Timer::pause\<close> of the Clock/Transport.\<close>
  "timer_pause d = d\<lparr>m_timer := Paused\<rparr>"

definition timer_play :: "Demuxer \<Rightarrow> Demuxer" where
  \<comment> \<open>Modelled from the spec: \<^verbatim>\<open>Timer::play\<close> of the Clock/Transport.\<close>
  "timer_play d = d\<lparr>m_timer := Playing\<rparr>"

definition sfeLogError :: "log_entry \<Rightarrow> Demuxer \<Rightarrow> Demuxer" where
  "sfeLogError e d = d\<lparr>errlog := errlog d @ [e]\<rparr>"

subsection \<open>Construction\<close>

text \<open>
  libavutil's \<^verbatim>\<open>av_get_media_type_string\<close>: the name of a media type, and a null
  pointer (\<open>None\<close>) for a type it does not know.
\<close>

fun av_get_media_type_string :: "AVMediaType \<Rightarrow> string option" where
  "av_get_media_type_string AVMEDIA_TYPE_VIDEO = Some ''video''"
| "av_get_media_type_string AVMEDIA_TYPE_AUDIO = Some ''audio''"
| "av_get_media_type_string AVMEDIA_TYPE_DATA = Some ''data''"
| "av_get_media_type_string AVMEDIA_TYPE_SUBTITLE = Some ''subtitle''"
| "av_get_media_type_string AVMEDIA_TYPE_ATTACHMENT = Some ''attachment''"
| "av_get_media_type_string AVMEDIA_TYPE_UNKNOWN = None"

text \<open>
  What the constructor receives from outside the class: the results of
  \<^verbatim>\<open>avformat_open_input\<close> (error code and context, \<open>None\<close> a null context) and of
  \<^verbatim>\<open>avformat_find_stream_info\<close>; the result of
  \<^verbatim>\<open>std::make_shared<VideoStream>(...)\<close> for a container stream, which is either
  the \<^verbatim>\<open>what()\<close> of the \<^verbatim>\<open>std::runtime_error\<close> the constructor threw or the address
  and the new object; \<^verbatim>\<open>avcodec_get_name(ffstream->codec->codec_id)\<close>, which is never
  null; and \<open>sf_seconds secs us\<close>, the value in microseconds of
  \<^verbatim>\<open>sf::seconds(secs + (float)us / AV_TIME_BASE)\<close>, whose floating-point arithmetic
  is left open. A \<^verbatim>\<open>VideoStream\<close> constructor that fails is taken to throw a
  \<^verbatim>\<open>std::runtime_error\<close>, the one exception the loop catches.
\<close>

record environment =
  avformat_open_input :: "int \<times> AVFormatContext option"
  avformat_find_stream_info :: int
  make_shared_VideoStream :: "AVStream \<Rightarrow> string + nat \<times> Stream"
  avcodec_get_name :: "AVStream \<Rightarrow> string"
  sf_seconds :: "int \<Rightarrow> int \<Rightarrow> int"

definition AV_TIME_BASE :: int where
  "AV_TIME_BASE = 1000000"

text \<open>
  The text
  \<^verbatim>\<open>std::string("'" + std::string(av_get_media_type_string(...)) + "/" + avcodec_get_name(...))\<close>
  of a stream. \<^verbatim>\<open>std::string\<close> built from the null pointer throws
  \<^verbatim>\<open>std::logic_error\<close>.
\<close>

definition stream_name :: "environment \<Rightarrow> AVStream \<Rightarrow> error + string" where
  "stream_name env ffstream =
     (case av_get_media_type_string (st_codec_type ffstream) of
        None \<Rightarrow> Inl (logic_error ''basic_string::_S_construct null not valid'')
      | Some type \<Rightarrow> Inr (CHR 0x27 # type @ ''/'' @ avcodec_get_name env ffstream))"

definition extractDurationFromStream :: "environment \<Rightarrow> AVStream \<Rightarrow> Demuxer \<Rightarrow> Demuxer" where
  "extractDurationFromStream env stream d =
     (if m_duration d \<noteq> 0 then d
      else case st_duration stream of
             None \<Rightarrow> d
           | Some dur \<Rightarrow>
               d\<lparr>m_duration := sf_seconds env (dur sdiv AV_TIME_BASE) (dur smod AV_TIME_BASE)\<rparr>)"

text \<open>
  One round of the loop over \<^verbatim>\<open>m_formatCtx->streams\<close>; \<open>Inl\<close> is an exception
  that leaves the loop and the constructor. In
  \<^verbatim>\<open>m_streams[ffstream->index] = std::make_shared<VideoStream>(...)\<close> the right-hand
  side is evaluated before the slot of the table is created (the order that
  C++17 fixes for an assignment), so a constructor that throws leaves the table
  as it was; the handler catches the \<^verbatim>\<open>std::runtime_error\<close>, logs it, and the loop
  goes on. The \<^verbatim>\<open>std::logic_error\<close> of a stream text that cannot be built is not
  caught by the handler.
\<close>

definition loadStream :: "environment \<Rightarrow> AVStream \<Rightarrow> Demuxer \<Rightarrow> error + Demuxer" where
  "loadStream env ffstream d =
     (case st_codec_type ffstream of
        AVMEDIA_TYPE_VIDEO \<Rightarrow>
          (case make_shared_VideoStream env ffstream of
             Inl what \<Rightarrow>
               (case stream_name env ffstream of
                  Inl e \<Rightarrow> Inl e
                | Inr name \<Rightarrow>
                    Inr (sfeLogError (StreamLoadError (name @ [CHR 0x27]) what) d))
           | Inr (addr, obj) \<Rightarrow>
               (let d1 = d\<lparr>m_streams := map_assign (st_index ffstream) addr (m_streams d),
                           objects := (objects d)(addr := obj)\<rparr>
                in Inr (if m_duration d1 = 0 then extractDurationFromStream env ffstream d1
                        else d1)))
      | _ \<Rightarrow>
          (case stream_name env ffstream of
             Inl e \<Rightarrow> Inl e
           | Inr name \<Rightarrow>
               Inr (d\<lparr>m_ignoredStreams :=
                         map_assign (st_index ffstream) name (m_ignoredStreams d)\<rparr>)))"

fun findStreams :: "environment \<Rightarrow> AVStream list \<Rightarrow> Demuxer \<Rightarrow> error + Demuxer" where
  "findStreams env [] d = Inr d"
| "findStreams env (ffstream # rest) d =
     (case loadStream env ffstream d of
        Inl e \<Rightarrow> Inl e
      | Inr d' \<Rightarrow> findStreams env rest d')"

definition Demuxer_init :: "AVFormatContext \<Rightarrow> Status \<Rightarrow> Demuxer" where
  \<comment> \<open>the member initialisers\<close>
  "Demuxer_init ctx timer =
     \<lparr>m_formatCtx = ctx, m_eofReached = False, m_streams = [], m_ignoredStreams = [],
      m_timer = timer, m_connectedVideoStream = None, m_duration = 0,
      m_pendingDataForActiveStreams = [],
      objects = (\<lambda>_. no_stream),
      freed = [], delivered = [], errlog = []\<rparr>"

text \<open>
  The body of the constructor once the container is open and probed: the
  duration of the container, the loop over its streams, the warning.
\<close>

definition Demuxer_load :: "environment \<Rightarrow> AVFormatContext \<Rightarrow> Status \<Rightarrow> error + Demuxer" where
  "Demuxer_load env ctx tm =
     (let d0 = Demuxer_init ctx tm;
          d1 = (case ctx_duration ctx of
                  None \<Rightarrow> d0
                | Some dur \<Rightarrow>
                    d0\<lparr>m_duration := sf_seconds env (dur sdiv AV_TIME_BASE)
                                                  (dur smod AV_TIME_BASE)\<rparr>)
      in (case findStreams env (ctx_streams ctx) d1 of
            Inl e \<Rightarrow> Inl e
          | Inr d2 \<Rightarrow> Inr (if m_duration d2 = 0 then sfeLogError DurationWarning d2 else d2)))"

text \<open>
  The constructor: the argument checks, \<^verbatim>\<open>avformat_open_input\<close>,
  \<^verbatim>\<open>avformat_find_stream_info\<close>, each a \<^verbatim>\<open>CHECK\<close> that throws. The timer is a
  \<^verbatim>\<open>std::shared_ptr<Timer>\<close>: \<open>None\<close> when null, else the status it reports.
\<close>

definition Demuxer_ctor :: "environment \<Rightarrow> string \<Rightarrow> Status option \<Rightarrow> error + Demuxer" where
  "Demuxer_ctor env sourceFile timer =
     (if length sourceFile = 0
      then Inl (runtime_error ''Demuxer::Demuxer() - invalid argument: sourceFile'')
      else (case timer of
          None \<Rightarrow> Inl (runtime_error ''Inconsistency error: null timer'')
        | Some tm \<Rightarrow>
            (case avformat_open_input env of
               (err, fmt) \<Rightarrow>
                 (if err \<noteq> 0
                  then Inl (runtime_error
                         (''Demuxer::Demuxer() - error while opening media: '' @ sourceFile))
                  else (case fmt of
                      None \<Rightarrow>
                        Inl (runtime_error
                          ''Demuxer() - inconsistency: media context cannot be nullptr'')
                    | Some ctx \<Rightarrow>
                        (if avformat_find_stream_info env \<noteq> 0
                         then Inl (runtime_error
                                ''Demuxer::Demuxer() - error while retreiving media information'')
                         else Demuxer_load env ctx tm))))))"

definition getDuration :: "Demuxer \<Rightarrow> int" where
  "getDuration d = m_duration d"

subsection \<open>Stream selection\<close>

definition getStreamsOfType :: "MediaType \<Rightarrow> Demuxer \<Rightarrow> nat list" where
  "getStreamsOfType type d =
     fold (\<lambda>pair streamSet.
             if getStreamKind (objects d (snd pair)) = type then set_insert (snd pair) streamSet
             else streamSet)
          (m_streams d) []"

definition selectVideoStream :: "nat option \<Rightarrow> Demuxer \<Rightarrow> error option \<times> Demuxer" where
  "selectVideoStream stream d =
     (let oldStatus = m_timer d in
      if oldStatus \<noteq> Stopped
      then (Some (runtime_error
              ''Changing the selected stream after starting the movie playback isn't supported yet''), d)
      else
        (let d1 = (if oldStatus = Playing then timer_pause d else d);
             d2 = (if stream \<noteq> m_connectedVideoStream d1
                   then (let d3 = (case m_connectedVideoStream d1 of
                                     Some old \<Rightarrow> disconnect old d1
                                   | None \<Rightarrow> d1);
                             d4 = (case stream of
                                     Some new \<Rightarrow> connect new d3
                                   | None \<Rightarrow> d3)
                         in d4\<lparr>m_connectedVideoStream := stream\<rparr>)
                   else d1);
             d5 = (if oldStatus = Playing then timer_play d2 else d2)
         in (None, d5)))"

text \<open>
  \<^verbatim>\<open>*videoStreams.begin()\<close> is the head of the ascending list. The streams of kind
  \<open>Video\<close> are the \<^verbatim>\<open>VideoStream\<close> objects, so the \<^verbatim>\<open>dynamic_pointer_cast\<close> returns
  the pointer it is given.
\<close>

definition selectFirstVideoStream :: "Demuxer \<Rightarrow> error option \<times> Demuxer" where
  "selectFirstVideoStream d =
     (let videoStreams = getStreamsOfType Video d in
      case videoStreams of
        [] \<Rightarrow> (None, d)
      | first # _ \<Rightarrow> selectVideoStream (Some first) d)"

definition getSelectedVideoStream :: "Demuxer \<Rightarrow> nat option" where
  "getSelectedVideoStream d = m_connectedVideoStream d"

subsection \<open>The packet supply loop\<close>

definition didReachEndOfFile :: "Demuxer \<Rightarrow> bool" where
  "didReachEndOfFile d = m_eofReached d"

definition readPacket :: "Demuxer \<Rightarrow> AVPacket option \<times> Demuxer" where
  "readPacket d =
     (case ctx_packets (m_formatCtx d) of
        [] \<Rightarrow> (None, d)
      | pkt # rest \<Rightarrow> (Some pkt, d\<lparr>m_formatCtx := (m_formatCtx d)\<lparr>ctx_packets := rest\<rparr>\<rparr>))"

definition flushBuffers :: "Demuxer \<Rightarrow> Demuxer" where
  "flushBuffers d =
     d\<lparr>freed := freed d @ m_pendingDataForActiveStreams d,
       m_pendingDataForActiveStreams := []\<rparr>"

definition queueEncodedData :: "AVPacket \<Rightarrow> Demuxer \<Rightarrow> Demuxer" where
  "queueEncodedData packet d =
     d\<lparr>m_pendingDataForActiveStreams := m_pendingDataForActiveStreams d @ [packet]\<rparr>"

text \<open>
  The loop of \<^verbatim>\<open>gatherQueuedPacketForStream\<close> over the list: the first packet the
  stream can use is erased from the list and returned.
\<close>

fun gather :: "Stream \<Rightarrow> AVPacket list \<Rightarrow> AVPacket option \<times> AVPacket list" where
  "gather s [] = (None, [])"
| "gather s (packet # rest) =
     (if canUsePacket s packet then (Some packet, rest)
      else (case gather s rest of (found, rest') \<Rightarrow> (found, packet # rest')))"

definition gatherQueuedPacketForStream :: "nat \<Rightarrow> Demuxer \<Rightarrow> AVPacket option \<times> Demuxer" where
  "gatherQueuedPacketForStream stream d =
     (case gather (objects d stream) (m_pendingDataForActiveStreams d) of
        (found, rest) \<Rightarrow> (found, d\<lparr>m_pendingDataForActiveStreams := rest\<rparr>))"

definition distributePacket :: "AVPacket \<Rightarrow> nat \<Rightarrow> Demuxer \<Rightarrow> bool \<times> Demuxer" where
  "distributePacket packet stream d =
     (case map_of (m_streams d) (stream_index packet) of
        None \<Rightarrow> (False, d)
      | Some targetStream \<Rightarrow>
          if Some targetStream = getSelectedVideoStream d
          then (True,
                if targetStream = stream \<or> isPassive (objects d targetStream)
                then pushEncodedData targetStream packet d
                else queueEncodedData packet d)
          else (False, d))"

text \<open>The body of the \<^verbatim>\<open>while\<close> loop of \<^verbatim>\<open>feedStream\<close>.\<close>

definition feedBody :: "nat \<Rightarrow> Demuxer \<Rightarrow> Demuxer" where
  "feedBody stream d =
     (case gatherQueuedPacketForStream stream d of (queued, d1) \<Rightarrow>
        (case (case queued of None \<Rightarrow> readPacket d1 | Some p \<Rightarrow> (Some p, d1)) of
           (None, d2) \<Rightarrow> d2\<lparr>m_eofReached := True\<rparr>
         | (Some pkt, d2) \<Rightarrow>
             (case distributePacket pkt stream d2 of (accepted, d3) \<Rightarrow>
                if \<not> accepted then d3\<lparr>freed := freed d3 @ [pkt]\<rparr> else d3)))"

definition feedCond :: "(Stream \<Rightarrow> bool) \<Rightarrow> nat \<Rightarrow> Demuxer \<Rightarrow> bool" where
  "feedCond needsMoreData stream d =
     (\<not> didReachEndOfFile d \<and> needsMoreData (objects d stream))"

text \<open>
  \<^verbatim>\<open>feedStream\<close>: the loop may not return, so its result is an option, \<open>None\<close> when
  it runs forever.
\<close>

definition feedStream :: "(Stream \<Rightarrow> bool) \<Rightarrow> nat \<Rightarrow> Demuxer \<Rightarrow> Demuxer option" where
  "feedStream needsMoreData stream d =
     while_option (feedCond needsMoreData stream) (feedBody stream) d"

definition requestMoreData :: "(Stream \<Rightarrow> bool) \<Rightarrow> nat \<Rightarrow> Demuxer \<Rightarrow> Demuxer option" where
  "requestMoreData needsMoreData starvingStream d = feedStream needsMoreData starvingStream d"

text \<open>A sequence of feed calls, one per requesting stream of the list.\<close>

fun feedCalls :: "(Stream \<Rightarrow> bool) \<Rightarrow> nat list \<Rightarrow> Demuxer \<Rightarrow> Demuxer option" where
  "feedCalls needsMoreData [] d = Some d"
| "feedCalls needsMoreData (stream # rest) d =
     (case requestMoreData needsMoreData stream d of
        None \<Rightarrow> None
      | Some d' \<Rightarrow> feedCalls needsMoreData rest d')"

subsection \<open>Seeking\<close>

definition resetEndOfFileStatus :: "Demuxer \<Rightarrow> Demuxer" where
  "resetEndOfFileStatus d = d\<lparr>m_eofReached := False\<rparr>"

text \<open>
  \<open>seek_file ctx timestamp\<close> is
  \<^verbatim>\<open>avformat_seek_file(m_formatCtx, -1, INT64_MIN, timestamp, INT64_MAX, AVSEEK_FLAG_BACKWARD)\<close>:
  its return code and the context it leaves behind. It is a parameter, so that
  a seek may fail or succeed and move the cursor anywhere.
\<close>

definition willSeek ::
  "(AVFormatContext \<Rightarrow> int \<Rightarrow> int \<times> AVFormatContext) \<Rightarrow> int \<Rightarrow> Demuxer \<Rightarrow> Demuxer" where
  "willSeek seek_file position d =
     (let d1 = resetEndOfFileStatus d;
          d2 = flushBuffers d1
      in if ctx_seek_to_pts (m_formatCtx d2)
         then (let timestamp = (case ctx_start_time (m_formatCtx d2) of
                                  None \<Rightarrow> 0
                                | Some start \<Rightarrow> 0 + start)
               in case seek_file (m_formatCtx d2) timestamp of (err, ctx') \<Rightarrow>
                    (let d3 = d2\<lparr>m_formatCtx := ctx'\<rparr>
                     in if err < 0 then sfeLogError (SeekError position) d3 else d3))
         else (case seek_file (m_formatCtx d2) 0 of (err, ctx') \<Rightarrow>
                 (let d3 = d2\<lparr>m_formatCtx := ctx'\<rparr>
                  in if err < 0 then sfeLogError (SeekError position) d3 else d3)))"

subsection \<open>Notions used by the properties\<close>

text \<open>
  The two halves of \<open>feedBody\<close>: choosing the packet of this round (from the
  pending queue, else from the container), and dispatching it, freeing it when
  \<open>distributePacket\<close> returns false.
\<close>

definition nextPacket :: "nat \<Rightarrow> Demuxer \<Rightarrow> AVPacket option \<times> Demuxer" where
  "nextPacket stream d =
     (case gatherQueuedPacketForStream stream d of (queued, d1) \<Rightarrow>
        (case queued of None \<Rightarrow> readPacket d1 | Some p \<Rightarrow> (Some p, d1)))"

definition dispatch :: "AVPacket \<Rightarrow> nat \<Rightarrow> Demuxer \<Rightarrow> Demuxer" where
  "dispatch pkt stream d2 =
     (case distributePacket pkt stream d2 of (accepted, d3) \<Rightarrow>
        if \<not> accepted then d3\<lparr>freed := freed d3 @ [pkt]\<rparr> else d3)"

text \<open>The packets the container has not yet yielded.\<close>

definition unread :: "Demuxer \<Rightarrow> AVPacket list" where
  "unread d = ctx_packets (m_formatCtx d)"

text \<open>
  Where a packet that was read can be: in the pending queue, freed, or pushed
  to a stream.
\<close>

definition accounted :: "Demuxer \<Rightarrow> AVPacket multiset" where
  "accounted d = mset (m_pendingDataForActiveStreams d) + mset (freed d)
                 + mset (map snd (delivered d))"

text \<open>
  The one situation in which a round of the loop makes no progress: the
  requester takes a packet from the queue that \<open>distributePacket\<close> puts back,
  because the table holds, under the requester's identifier, another stream,
  which is selected and not passive.
\<close>

definition can_requeue :: "nat \<Rightarrow> Demuxer \<Rightarrow> bool" where
  "can_requeue stream d =
     (case m_connectedVideoStream d of
        None \<Rightarrow> False
      | Some t \<Rightarrow> t \<noteq> stream \<and> \<not> isPassive (objects d t)
                  \<and> map_of (m_streams d) (m_streamIndex (objects d stream)) = Some t)"

definition feed_measure :: "Demuxer \<Rightarrow> nat" where
  "feed_measure d = 2 * length (unread d) + length (m_pendingDataForActiveStreams d)
                    + (if m_eofReached d then 0 else 1)"

text \<open>What no round of the loop changes.\<close>

definition same_attributes :: "Demuxer \<Rightarrow> Demuxer \<Rightarrow> bool" where
  "same_attributes d d' =
     (m_streams d' = m_streams d \<and> m_connectedVideoStream d' = m_connectedVideoStream d
      \<and> m_timer d' = m_timer d \<and> m_duration d' = m_duration d
      \<and> m_ignoredStreams d' = m_ignoredStreams d
      \<and> (\<forall>a. m_streamIndex (objects d' a) = m_streamIndex (objects d a)
             \<and> m_streamKind (objects d' a) = m_streamKind (objects d a)
             \<and> m_passive (objects d' a) = m_passive (objects d a)
             \<and> m_connected (objects d' a) = m_connected (objects d a)))"

definition feed_rel :: "Demuxer \<Rightarrow> Demuxer \<Rightarrow> bool" where
  "feed_rel d d' =
     (same_attributes d d'
      \<and> mset (unread d') + accounted d' = mset (unread d) + accounted d
      \<and> (\<exists>rd. unread d = rd @ unread d')
      \<and> (\<exists>new. delivered d' = delivered d @ new
            \<and> (\<forall>(t, p)\<in>set new. map_of (m_streams d) (stream_index p) = Some t
                                   \<and> m_connectedVideoStream d = Some t)))"

text \<open>
  The packets that a list of \<^verbatim>\<open>pushEncodedData\<close> calls hands to the stream at an
  address, and the relation between the log of the calls and the packet lists
  of the stream objects.
\<close>

definition received_by :: "nat \<Rightarrow> (nat \<times> AVPacket) list \<Rightarrow> AVPacket list" where
  "received_by a pushes = map snd (filter (\<lambda>x. fst x = a) pushes)"

definition log_rel :: "Demuxer \<Rightarrow> Demuxer \<Rightarrow> bool" where
  "log_rel d d' =
     (\<exists>new. delivered d' = delivered d @ new
        \<and> (\<forall>a. m_packetList (objects d' a) = m_packetList (objects d a) @ received_by a new))"

text \<open>
  What can happen to the demultiplexer between two seeks: a round of the feed
  loop for a requester, a selection, a flush.
\<close>

datatype operation = Round nat | Select "nat option" | Flush

fun perform :: "operation \<Rightarrow> Demuxer \<Rightarrow> Demuxer" where
  "perform (Round stream) d = feedBody stream d"
| "perform (Select stream) d = snd (selectVideoStream stream d)"
| "perform Flush d = flushBuffers d"

text \<open>
  The packets read between two states, and all of them accounted for.
\<close>

definition account_rel :: "Demuxer \<Rightarrow> Demuxer \<Rightarrow> bool" where
  "account_rel d d' =
     ((\<exists>rd. unread d = rd @ unread d')
      \<and> mset (unread d') + accounted d' = mset (unread d) + accounted d)"

text \<open>
  The rule of claim C3 for a packet \<open>p\<close> taken by a round for the requester
  \<open>stream\<close>, between the state \<open>x1\<close> without the packet and the state \<open>x'\<close> after
  the round: delivered once, queued, or freed.
\<close>

definition dispatched_by_rule :: "nat \<Rightarrow> AVPacket \<Rightarrow> Demuxer \<Rightarrow> Demuxer \<Rightarrow> bool" where
  "dispatched_by_rule stream p x1 x' =
     ((case map_of (m_streams x1) (stream_index p) of
         None \<Rightarrow>
           freed x' = freed x1 @ [p] \<and> delivered x' = delivered x1
           \<and> m_pendingDataForActiveStreams x' = m_pendingDataForActiveStreams x1
       | Some t \<Rightarrow>
           if getSelectedVideoStream x1 = Some t
           then (if t = stream \<or> isPassive (objects x1 t)
                 then delivered x' = delivered x1 @ [(t, p)] \<and> freed x' = freed x1
                      \<and> m_pendingDataForActiveStreams x' = m_pendingDataForActiveStreams x1
                 else m_pendingDataForActiveStreams x' = m_pendingDataForActiveStreams x1 @ [p]
                      \<and> delivered x' = delivered x1 \<and> freed x' = freed x1)
           else freed x' = freed x1 @ [p] \<and> delivered x' = delivered x1
                \<and> m_pendingDataForActiveStreams x' = m_pendingDataForActiveStreams x1)
      \<and> unread x' = unread x1)"

subsection \<open>Scenarios\<close>

text \<open>
  A container with two video streams: stream A, identifier 0, whose object is at
  address 1, and stream B, identifier 1, at address 2. A is selected. The
  arguments are the packets the container still holds and the pending queue.
  With an empty queue it is the state that the constructor and the selection of
  A produce (lemma \<open>two_streams_constructed\<close>).
\<close>

definition video_stream :: "int \<Rightarrow> Stream" where
  "video_stream i =
     \<lparr>m_streamIndex = i, m_streamKind = Video, m_passive = False, m_connected = False,
      m_packetList = []\<rparr>"

definition packet :: "nat \<Rightarrow> int \<Rightarrow> AVPacket" where
  "packet a i = \<lparr>pkt_addr = a, stream_index = i\<rparr>"

definition two_streams_ctx :: "AVPacket list \<Rightarrow> AVFormatContext" where
  "two_streams_ctx packets =
     \<lparr>ctx_duration = None, ctx_start_time = None, ctx_seek_to_pts = False,
      ctx_streams = [\<lparr>st_index = 0, st_codec_type = AVMEDIA_TYPE_VIDEO, st_duration = None\<rparr>,
                     \<lparr>st_index = 1, st_codec_type = AVMEDIA_TYPE_VIDEO, st_duration = None\<rparr>],
      ctx_packets = packets\<rparr>"

definition two_streams :: "AVPacket list \<Rightarrow> AVPacket list \<Rightarrow> Demuxer" where
  "two_streams packets pending =
     \<lparr>m_formatCtx = two_streams_ctx packets, m_eofReached = False,
      m_streams = [(0, 1), (1, 2)], m_ignoredStreams = [], m_timer = Stopped,
      m_connectedVideoStream = Some 1, m_duration = 0,
      m_pendingDataForActiveStreams = pending,
      objects = (\<lambda>a. if a = 1 then (video_stream 0)\<lparr>m_connected := True\<rparr>
                     else if a = 2 then video_stream 1 else no_stream),
      freed = [], delivered = [], errlog = [DurationWarning]\<rparr>"

text \<open>
  Five packets in the container: for B, for A, for B, for A, for A.
\<close>

definition scenario_packets :: "AVPacket list" where
  "scenario_packets = [packet 100 1, packet 101 0, packet 102 1, packet 103 0, packet 104 0]"

text \<open>A stream that wants two packets.\<close>

definition needs_two :: "Stream \<Rightarrow> bool" where
  "needs_two s = (length (m_packetList s) < 2)"

text \<open>A seek that fails and leaves the context as it is.\<close>

definition failing_seek :: "AVFormatContext \<Rightarrow> int \<Rightarrow> int \<times> AVFormatContext" where
  "failing_seek ctx timestamp = (- 1, ctx)"

text \<open>
  The time, in microseconds, that the constructor computes from a duration of
  the container or of a stream.
\<close>

definition resolve :: "environment \<Rightarrow> int \<Rightarrow> int" where
  "resolve env dur = sf_seconds env (dur sdiv AV_TIME_BASE) (dur smod AV_TIME_BASE)"

text \<open>
  A container stream for which the constructor registers a video stream, and
  one from which it takes the duration, if it still has none.
\<close>

definition loads :: "environment \<Rightarrow> AVStream \<Rightarrow> bool" where
  "loads env ff =
     (st_codec_type ff = AVMEDIA_TYPE_VIDEO
      \<and> (case make_shared_VideoStream env ff of Inl _ \<Rightarrow> False | Inr _ \<Rightarrow> True))"

definition gives_duration :: "environment \<Rightarrow> AVStream \<Rightarrow> bool" where
  "gives_duration env ff =
     (loads env ff
      \<and> (case st_duration ff of None \<Rightarrow> False | Some dur \<Rightarrow> resolve env dur \<noteq> 0))"

text \<open>A container stream whose media type has a name.\<close>

definition named :: "AVStream \<Rightarrow> bool" where
  "named ff = (av_get_media_type_string (st_codec_type ff) \<noteq> None)"

text \<open>The demultiplexer before the loop over the streams of the container.\<close>

definition Demuxer_start :: "environment \<Rightarrow> AVFormatContext \<Rightarrow> Status \<Rightarrow> Demuxer" where
  "Demuxer_start env ctx tm =
     (case ctx_duration ctx of
        None \<Rightarrow> Demuxer_init ctx tm
      | Some dur \<Rightarrow> (Demuxer_init ctx tm)\<lparr>m_duration := resolve env dur\<rparr>)"

text \<open>
  The duration as claim C8 words it: the one of the container when present,
  else the one of the first video stream, zero when neither has one.
\<close>

definition duration_claimed :: "environment \<Rightarrow> AVFormatContext \<Rightarrow> int" where
  "duration_claimed env ctx =
     (case ctx_duration ctx of
        Some dur \<Rightarrow> resolve env dur
      | None \<Rightarrow>
          (case find (\<lambda>ff. st_codec_type ff = AVMEDIA_TYPE_VIDEO) (ctx_streams ctx) of
             None \<Rightarrow> 0
           | Some ff \<Rightarrow> (case st_duration ff of None \<Rightarrow> 0 | Some dur \<Rightarrow> resolve env dur)))"

text \<open>
  Environments for the constructor. \<open>seconds_exact\<close> is \<^verbatim>\<open>sf::seconds\<close> computed without
  rounding; \<open>allocate addr\<close> is a \<^verbatim>\<open>make_shared\<close> that succeeds and places the
  stream with identifier \<open>i\<close> at address \<open>addr i\<close>. In \<open>mixed_env\<close> the container has
  the streams 0 (video), 1 (audio), 2 (video, whose construction throws) and 3
  (video). In \<open>descending_env\<close> the second video stream is allocated below the
  first. In \<open>unnamed_env\<close> the container has a video stream and a stream whose
  media type is unknown.
\<close>

definition seconds_exact :: "int \<Rightarrow> int \<Rightarrow> int" where
  "seconds_exact secs us = secs * 1000000 + us"

definition codec_name :: "AVStream \<Rightarrow> string" where
  "codec_name ff = (if st_codec_type ff = AVMEDIA_TYPE_VIDEO then ''theora'' else ''vorbis'')"

definition allocate :: "(int \<Rightarrow> nat) \<Rightarrow> AVStream \<Rightarrow> string + nat \<times> Stream" where
  "allocate addr ff = Inr (addr (st_index ff), video_stream (st_index ff))"

definition ffstream :: "int \<Rightarrow> AVMediaType \<Rightarrow> int option \<Rightarrow> AVStream" where
  "ffstream i type dur = \<lparr>st_index = i, st_codec_type = type, st_duration = dur\<rparr>"

definition container :: "int option \<Rightarrow> AVStream list \<Rightarrow> AVFormatContext" where
  "container dur streams =
     \<lparr>ctx_duration = dur, ctx_start_time = None, ctx_seek_to_pts = False,
      ctx_streams = streams, ctx_packets = []\<rparr>"

definition test_env ::
  "AVFormatContext \<Rightarrow> (AVStream \<Rightarrow> string + nat \<times> Stream) \<Rightarrow> environment" where
  "test_env ctx mk =
     \<lparr>avformat_open_input = (0, Some ctx), avformat_find_stream_info = 0,
      make_shared_VideoStream = mk, avcodec_get_name = codec_name, sf_seconds = seconds_exact\<rparr>"

definition mixed_container :: AVFormatContext where
  "mixed_container =
     container None [ffstream 0 AVMEDIA_TYPE_VIDEO None, ffstream 1 AVMEDIA_TYPE_AUDIO None,
                     ffstream 2 AVMEDIA_TYPE_VIDEO None, ffstream 3 AVMEDIA_TYPE_VIDEO None]"

definition mixed_env :: environment where
  "mixed_env =
     test_env mixed_container
       (\<lambda>ff. if st_index ff = 2 then Inl ''unsupported codec''
             else allocate (\<lambda>i. nat i + 10) ff)"

definition zero_duration_container :: AVFormatContext where
  "zero_duration_container = container (Some 0) [ffstream 0 AVMEDIA_TYPE_VIDEO (Some 5000000)]"

definition second_stream_container :: AVFormatContext where
  "second_stream_container =
     container None [ffstream 0 AVMEDIA_TYPE_VIDEO None,
                     ffstream 1 AVMEDIA_TYPE_VIDEO (Some 5000000)]"

definition zero_duration_env :: environment where
  "zero_duration_env = test_env zero_duration_container (allocate nat)"

definition second_stream_env :: environment where
  "second_stream_env = test_env second_stream_container (allocate nat)"

definition timed_container :: AVFormatContext where
  "timed_container = container (Some 7500000) [ffstream 0 AVMEDIA_TYPE_VIDEO (Some 5000000)]"

definition timed_env :: environment where
  "timed_env = test_env timed_container (allocate nat)"

definition descending_env :: environment where
  "descending_env =
     test_env (container None [ffstream 0 AVMEDIA_TYPE_VIDEO None,
                               ffstream 1 AVMEDIA_TYPE_VIDEO None])
       (allocate (\<lambda>i. if i = 0 then 7 else 3))"

definition unnamed_container :: AVFormatContext where
  "unnamed_container =
     container None [ffstream 0 AVMEDIA_TYPE_VIDEO None, ffstream 1 AVMEDIA_TYPE_UNKNOWN None]"

definition unnamed_env :: environment where
  "unnamed_env = test_env unnamed_container (allocate nat)"

section \<open>Properties\<close>

subsection \<open>The table and the pending queue\<close>

lemma map_of_map_assign: "map_of (map_assign k v m) = (map_of m)(k \<mapsto> v)"
  by (induction m) (auto simp: fun_eq_iff)

lemma gather_None_iff: "fst (gather s ps) = None \<longleftrightarrow> (\<forall>p\<in>set ps. \<not> canUsePacket s p)"
  by (induction ps) (auto split: prod.splits)

lemma gather_None_rest: "fst (gather s ps) = None \<Longrightarrow> snd (gather s ps) = ps"
  by (induction ps) (auto split: prod.splits if_splits)

lemma gather_Some_split:
  "fst (gather s ps) = Some p \<Longrightarrow>
     \<exists>xs ys. ps = xs @ p # ys \<and> (\<forall>q\<in>set xs. \<not> canUsePacket s q) \<and> canUsePacket s p
        \<and> snd (gather s ps) = xs @ ys"
proof (induction ps)
  case Nil
  then show ?case by simp
next
  case (Cons a ps)
  show ?case
  proof (cases "canUsePacket s a")
    case True
    with Cons.prems have "p = a" by simp
    with True have "a # ps = [] @ p # ps" "\<forall>q\<in>set []. \<not> canUsePacket s q"
      "snd (gather s (a # ps)) = [] @ ps" "canUsePacket s p" by simp_all
    then show ?thesis by blast
  next
    case False
    with Cons.prems have "fst (gather s ps) = Some p" by (simp add: split_beta)
    from Cons.IH[OF this] obtain xs ys where
      "ps = xs @ p # ys" "\<forall>q\<in>set xs. \<not> canUsePacket s q" "canUsePacket s p"
      "snd (gather s ps) = xs @ ys" by blast
    then have "a # ps = (a # xs) @ p # ys" "\<forall>q\<in>set (a # xs). \<not> canUsePacket s q"
      "snd (gather s (a # ps)) = (a # xs) @ ys"
      using False by (simp_all add: split_beta)
    with \<open>canUsePacket s p\<close> show ?thesis by blast
  qed
qed

lemma gather_first_match:
  "(\<forall>q\<in>set xs. \<not> canUsePacket s q) \<Longrightarrow> canUsePacket s p \<Longrightarrow>
     gather s (xs @ p # ys) = (Some p, xs @ ys)"
  by (induction xs) auto

subsection \<open>One round of the feed loop\<close>

lemma feedBody_nextPacket:
  "feedBody stream d =
     (case nextPacket stream d of
        (None, d2) \<Rightarrow> d2\<lparr>m_eofReached := True\<rparr>
      | (Some pkt, d2) \<Rightarrow> dispatch pkt stream d2)"
  by (simp add: feedBody_def nextPacket_def dispatch_def split: prod.splits option.splits)

lemma nextPacket_None:
  assumes "nextPacket stream d = (None, d2)"
  shows "d2 = d \<and> ctx_packets (m_formatCtx d) = []
         \<and> (\<forall>q\<in>set (m_pendingDataForActiveStreams d). \<not> canUsePacket (objects d stream) q)"
proof -
  let ?g = "gather (objects d stream) (m_pendingDataForActiveStreams d)"
  from assms have n: "fst ?g = None"
    by (auto simp: nextPacket_def gatherQueuedPacketForStream_def readPacket_def
        split: prod.splits option.splits list.splits)
  then have r: "snd ?g = m_pendingDataForActiveStreams d" by (rule gather_None_rest)
  from n r have g: "?g = (None, m_pendingDataForActiveStreams d)" by (simp add: prod_eq_iff)
  from assms g have "d2 = d \<and> ctx_packets (m_formatCtx d) = []"
    by (auto simp: nextPacket_def gatherQueuedPacketForStream_def readPacket_def
        split: list.splits)
  with n show ?thesis by (simp add: gather_None_iff)
qed

lemma nextPacket_Some:
  assumes "nextPacket stream d = (Some p, d2)"
  shows "(\<exists>xs ys. m_pendingDataForActiveStreams d = xs @ p # ys
            \<and> (\<forall>q\<in>set xs. \<not> canUsePacket (objects d stream) q)
            \<and> canUsePacket (objects d stream) p
            \<and> d2 = d\<lparr>m_pendingDataForActiveStreams := xs @ ys\<rparr>)
       \<or> ((\<forall>q\<in>set (m_pendingDataForActiveStreams d). \<not> canUsePacket (objects d stream) q)
            \<and> (\<exists>rest. ctx_packets (m_formatCtx d) = p # rest
                  \<and> d2 = d\<lparr>m_formatCtx := (m_formatCtx d)\<lparr>ctx_packets := rest\<rparr>\<rparr>))"
proof -
  let ?g = "gather (objects d stream) (m_pendingDataForActiveStreams d)"
  show ?thesis
  proof (cases "fst ?g")
    case None
    then have r: "snd ?g = m_pendingDataForActiveStreams d" by (rule gather_None_rest)
    from None r have g: "?g = (None, m_pendingDataForActiveStreams d)" by (simp add: prod_eq_iff)
    from assms g have "\<exists>rest. ctx_packets (m_formatCtx d) = p # rest
                  \<and> d2 = d\<lparr>m_formatCtx := (m_formatCtx d)\<lparr>ctx_packets := rest\<rparr>\<rparr>"
      by (auto simp: nextPacket_def gatherQueuedPacketForStream_def readPacket_def
          split: list.splits)
    with None show ?thesis by (simp add: gather_None_iff)
  next
    case (Some q)
    from gather_Some_split[OF this] obtain xs ys where
      s: "m_pendingDataForActiveStreams d = xs @ q # ys"
         "\<forall>q\<in>set xs. \<not> canUsePacket (objects d stream) q"
         "canUsePacket (objects d stream) q" "snd ?g = xs @ ys" by blast
    from Some s(4) have g: "?g = (Some q, xs @ ys)" by (simp add: prod_eq_iff)
    from assms g have "p = q" "d2 = d\<lparr>m_pendingDataForActiveStreams := xs @ ys\<rparr>"
      by (auto simp: nextPacket_def gatherQueuedPacketForStream_def)
    with s show ?thesis by blast
  qed
qed

text \<open>The three outcomes of dispatch.\<close>

lemma dispatch_cases:
  "dispatch pkt stream d =
     (case map_of (m_streams d) (stream_index pkt) of
        None \<Rightarrow> d\<lparr>freed := freed d @ [pkt]\<rparr>
      | Some t \<Rightarrow>
          if m_connectedVideoStream d = Some t
          then (if t = stream \<or> isPassive (objects d t) then pushEncodedData t pkt d
                else queueEncodedData pkt d)
          else d\<lparr>freed := freed d @ [pkt]\<rparr>)"
  by (auto simp: dispatch_def distributePacket_def getSelectedVideoStream_def split: option.splits)

lemma dispatch_conserve:
  "unread (dispatch p s d) = unread d \<and> accounted (dispatch p s d) = add_mset p (accounted d)"
  by (simp add: dispatch_cases unread_def accounted_def pushEncodedData_def queueEncodedData_def
      split: option.splits)

lemma dispatch_same_attributes: "same_attributes d (dispatch p s d)"
  by (simp add: dispatch_cases same_attributes_def pushEncodedData_def queueEncodedData_def
      split: option.splits)

lemma dispatch_eof: "m_eofReached (dispatch p s d) = m_eofReached d"
  by (simp add: dispatch_cases pushEncodedData_def queueEncodedData_def split: option.splits)

lemma dispatch_delivered:
  "delivered (dispatch p s d) = delivered d
   \<or> (\<exists>t. delivered (dispatch p s d) = delivered d @ [(t, p)]
          \<and> map_of (m_streams d) (stream_index p) = Some t
          \<and> m_connectedVideoStream d = Some t
          \<and> (t = s \<or> isPassive (objects d t)))"
  by (simp add: dispatch_cases pushEncodedData_def queueEncodedData_def split: option.splits)

lemma feedBody_cases:
  obtains
    (eof) "unread d = []" "feedBody s d = d\<lparr>m_eofReached := True\<rparr>"
      "\<forall>q\<in>set (m_pendingDataForActiveStreams d). \<not> canUsePacket (objects d s) q"
  | (queued) p xs ys where "m_pendingDataForActiveStreams d = xs @ p # ys"
      "\<forall>q\<in>set xs. \<not> canUsePacket (objects d s) q" "canUsePacket (objects d s) p"
      "feedBody s d = dispatch p s (d\<lparr>m_pendingDataForActiveStreams := xs @ ys\<rparr>)"
  | (read) p rest where "unread d = p # rest"
      "\<forall>q\<in>set (m_pendingDataForActiveStreams d). \<not> canUsePacket (objects d s) q"
      "feedBody s d = dispatch p s (d\<lparr>m_formatCtx := (m_formatCtx d)\<lparr>ctx_packets := rest\<rparr>\<rparr>)"
proof (cases "nextPacket s d")
  case (Pair r d2)
  show thesis
  proof (cases r)
    case None
    with Pair nextPacket_None[of s d d2] have "d2 = d" "unread d = []"
      "\<forall>q\<in>set (m_pendingDataForActiveStreams d). \<not> canUsePacket (objects d s) q"
      by (simp_all add: unread_def)
    moreover from Pair None have "feedBody s d = d2\<lparr>m_eofReached := True\<rparr>"
      by (simp add: feedBody_nextPacket)
    ultimately show thesis using eof by simp
  next
    case (Some p)
    with Pair have fb: "feedBody s d = dispatch p s d2" by (simp add: feedBody_nextPacket)
    from Pair Some have "nextPacket s d = (Some p, d2)" by simp
    from nextPacket_Some[OF this] fb show thesis
      using queued[of _ p] read[of p] by (auto simp: unread_def)
  qed
qed

lemma feedBody_conserve:
  "mset (unread (feedBody s d)) + accounted (feedBody s d) = mset (unread d) + accounted d"
  by (cases d s rule: feedBody_cases)
     (simp_all add: dispatch_conserve, simp_all add: unread_def accounted_def)

lemma feedBody_unread:
  "\<exists>rd. unread d = rd @ unread (feedBody s d)"
  by (cases d s rule: feedBody_cases)
     (simp_all add: dispatch_conserve, simp_all add: unread_def)

lemma feedBody_same_attributes: "same_attributes d (feedBody s d)"
proof (cases d s rule: feedBody_cases)
  case eof
  then show ?thesis by (simp add: same_attributes_def)
next
  case (queued p xs ys)
  from dispatch_same_attributes[of "d\<lparr>m_pendingDataForActiveStreams := xs @ ys\<rparr>" p s] queued(4)
  show ?thesis by (simp add: same_attributes_def)
next
  case (read p rest)
  from dispatch_same_attributes[of "d\<lparr>m_formatCtx := (m_formatCtx d)\<lparr>ctx_packets := rest\<rparr>\<rparr>" p s]
    read(3)
  show ?thesis by (simp add: same_attributes_def)
qed

lemma feedBody_delivered:
  "delivered (feedBody s d) = delivered d
   \<or> (\<exists>t p. delivered (feedBody s d) = delivered d @ [(t, p)]
          \<and> map_of (m_streams d) (stream_index p) = Some t
          \<and> m_connectedVideoStream d = Some t
          \<and> (t = s \<or> isPassive (objects d t)))"
proof (cases d s rule: feedBody_cases)
  case eof
  then show ?thesis by simp
next
  case (queued p xs ys)
  from dispatch_delivered[of p s "d\<lparr>m_pendingDataForActiveStreams := xs @ ys\<rparr>"] queued(4)
  show ?thesis by auto
next
  case (read p rest)
  from dispatch_delivered[of p s "d\<lparr>m_formatCtx := (m_formatCtx d)\<lparr>ctx_packets := rest\<rparr>\<rparr>"]
    read(3)
  show ?thesis by auto
qed

lemma can_requeue_same_attributes:
  "same_attributes d d' \<Longrightarrow> can_requeue s d' = can_requeue s d"
  by (simp add: same_attributes_def can_requeue_def isPassive_def split: option.splits)

lemma feedBody_measure:
  assumes "\<not> can_requeue s d" "\<not> m_eofReached d"
  shows "feed_measure (feedBody s d) < feed_measure d"
proof (cases d s rule: feedBody_cases)
  case eof
  with assms show ?thesis by (simp add: feed_measure_def unread_def)
next
  case (queued p xs ys)
  from queued(3) assms(1) have
    "\<not> (\<exists>t. map_of (m_streams d) (stream_index p) = Some t \<and> m_connectedVideoStream d = Some t
          \<and> t \<noteq> s \<and> \<not> isPassive (objects d t))"
    by (auto simp: can_requeue_def canUsePacket_def)
  with queued(1,4) assms(2) show ?thesis
    by (auto simp: dispatch_cases feed_measure_def unread_def pushEncodedData_def
        queueEncodedData_def split: option.splits)
next
  case (read p rest)
  with assms(2) show ?thesis
    by (auto simp: dispatch_cases feed_measure_def unread_def pushEncodedData_def
        queueEncodedData_def split: option.splits)
qed

subsection \<open>The feed loop\<close>

lemma feed_rel_refl: "feed_rel d d"
  by (simp add: feed_rel_def same_attributes_def)

lemma same_attributes_trans:
  "same_attributes a b \<Longrightarrow> same_attributes b c \<Longrightarrow> same_attributes a c"
  by (simp add: same_attributes_def)

lemma feed_rel_trans:
  assumes "feed_rel a b" "feed_rel b c"
  shows "feed_rel a c"
proof -
  from assms have sa: "same_attributes a b" "same_attributes b c"
    by (simp_all add: feed_rel_def)
  then have tbl: "m_streams b = m_streams a" "m_connectedVideoStream b = m_connectedVideoStream a"
    by (simp_all add: same_attributes_def)
  from assms obtain r1 r2 where r: "unread a = r1 @ unread b" "unread b = r2 @ unread c"
    by (auto simp: feed_rel_def)
  from assms obtain n1 n2 where
    n: "delivered b = delivered a @ n1" "delivered c = delivered b @ n2"
       "\<forall>(t, p)\<in>set n1. map_of (m_streams a) (stream_index p) = Some t
                           \<and> m_connectedVideoStream a = Some t"
       "\<forall>(t, p)\<in>set n2. map_of (m_streams b) (stream_index p) = Some t
                           \<and> m_connectedVideoStream b = Some t"
    by (auto simp: feed_rel_def)
  from r have "unread a = (r1 @ r2) @ unread c" by simp
  then have 1: "\<exists>rd. unread a = rd @ unread c" by blast
  from n tbl have "delivered c = delivered a @ (n1 @ n2)
      \<and> (\<forall>(t, p)\<in>set (n1 @ n2). map_of (m_streams a) (stream_index p) = Some t
                           \<and> m_connectedVideoStream a = Some t)"
    by auto
  then have 2: "\<exists>new. delivered c = delivered a @ new
            \<and> (\<forall>(t, p)\<in>set new. map_of (m_streams a) (stream_index p) = Some t
                                   \<and> m_connectedVideoStream a = Some t)" by blast
  from assms have 3: "mset (unread c) + accounted c = mset (unread a) + accounted a"
    by (simp add: feed_rel_def)
  from same_attributes_trans[OF sa] 1 2 3 show ?thesis by (simp add: feed_rel_def)
qed

lemma feed_rel_feedBody: "feed_rel d (feedBody s d)"
proof -
  from feedBody_delivered[of s d]
  have "\<exists>new. delivered (feedBody s d) = delivered d @ new
            \<and> (\<forall>(t, p)\<in>set new. map_of (m_streams d) (stream_index p) = Some t
                                   \<and> m_connectedVideoStream d = Some t)"
  proof
    assume "delivered (feedBody s d) = delivered d"
    then have "delivered (feedBody s d) = delivered d @ []
        \<and> (\<forall>(t, p)\<in>set []. map_of (m_streams d) (stream_index p) = Some t
                                   \<and> m_connectedVideoStream d = Some t)" by simp
    then show ?thesis by blast
  next
    assume "\<exists>t p. delivered (feedBody s d) = delivered d @ [(t, p)]
          \<and> map_of (m_streams d) (stream_index p) = Some t
          \<and> m_connectedVideoStream d = Some t
          \<and> (t = s \<or> isPassive (objects d t))"
    then obtain t p where "delivered (feedBody s d) = delivered d @ [(t, p)]
        \<and> (\<forall>(t, p)\<in>set [(t, p)]. map_of (m_streams d) (stream_index p) = Some t
                                   \<and> m_connectedVideoStream d = Some t)" by auto
    then show ?thesis by blast
  qed
  with feedBody_same_attributes[of d s] feedBody_conserve[of s d] feedBody_unread[of d s]
  show ?thesis by (simp add: feed_rel_def)
qed

lemma feed_rel_fold: "feed_rel d (fold feedBody rounds d)"
proof (induction rounds arbitrary: d)
  case Nil
  show ?case by (simp add: feed_rel_refl)
next
  case (Cons s rounds)
  from feed_rel_trans[OF feed_rel_feedBody[of d s] Cons.IH[of "feedBody s d"]]
  show ?case by simp
qed

lemma feedStream_rounds:
  "feedStream needs s d = Some d' \<Longrightarrow> \<exists>k. d' = fold feedBody (replicate k s) d"
proof -
  have f: "(feedBody s ^^ k) x = fold feedBody (replicate k s) x" for k x
    by (induction k arbitrary: x) (simp_all add: funpow_swap1)
  assume "feedStream needs s d = Some d'"
  then obtain k where "d' = (feedBody s ^^ k) d"
    unfolding feedStream_def by (blast dest: while_option_stop2)
  with f show ?thesis by auto
qed

lemma feedCalls_rounds:
  "feedCalls needs streams d = Some d' \<Longrightarrow> \<exists>rounds. d' = fold feedBody rounds d"
proof (induction streams arbitrary: d)
  case Nil
  then have "d' = fold feedBody [] d" by simp
  then show ?case by blast
next
  case (Cons s streams)
  then obtain d1 where 1: "feedStream needs s d = Some d1"
    and 2: "feedCalls needs streams d1 = Some d'"
    by (auto simp: requestMoreData_def split: option.splits)
  from feedStream_rounds[OF 1] obtain k where k: "d1 = fold feedBody (replicate k s) d" by blast
  from Cons.IH[OF 2] obtain rs where "d' = fold feedBody rs d1" by blast
  with k have "d' = fold feedBody (replicate k s @ rs) d" by simp
  then show ?case by blast
qed

lemma feedStream_stops:
  "feedStream needs s d = Some d' \<Longrightarrow> didReachEndOfFile d' \<or> \<not> needs (objects d' s)"
  unfolding feedStream_def by (drule while_option_stop) (simp add: feedCond_def)

lemma feedStream_unfold:
  "feedStream needs s d =
     (if \<not> didReachEndOfFile d \<and> needs (objects d s) then feedStream needs s (feedBody s d)
      else Some d)"
  unfolding feedStream_def by (subst while_option_unfold) (simp add: feedCond_def)

lemma feedStream_terminates:
  assumes "\<not> can_requeue s d"
  shows "\<exists>d'. feedStream needs s d = Some d'"
  unfolding feedStream_def
proof (rule measure_while_option_Some[where P = "\<lambda>x. \<not> can_requeue s x" and f = feed_measure])
  fix x
  assume "\<not> can_requeue s x" "feedCond needs s x"
  then show "\<not> can_requeue s (feedBody s x) \<and> feed_measure (feedBody s x) < feed_measure x"
    using feedBody_measure[of s x] can_requeue_same_attributes[OF feedBody_same_attributes[of x s], of s]
    by (simp add: feedCond_def didReachEndOfFile_def)
qed (rule assms)

lemma feedCalls_terminates:
  "\<forall>s\<in>set streams. \<not> can_requeue s d \<Longrightarrow> \<exists>d'. feedCalls needs streams d = Some d'"
proof (induction streams arbitrary: d)
  case Nil
  then show ?case by simp
next
  case (Cons s streams)
  then have "\<not> can_requeue s d" by simp
  from feedStream_terminates[OF this] obtain d1 where 1: "feedStream needs s d = Some d1" by blast
  from feedStream_rounds[OF 1] obtain k where "d1 = fold feedBody (replicate k s) d" by blast
  with feed_rel_fold[of d "replicate k s"] have "same_attributes d d1" by (simp add: feed_rel_def)
  with Cons.prems have "\<forall>s\<in>set streams. \<not> can_requeue s d1"
    by (simp add: can_requeue_same_attributes)
  from Cons.IH[OF this] 1 show ?case by (simp add: requestMoreData_def)
qed

lemma feed_rel_run:
  assumes "feedCalls needs streams d = Some d' \<or> d' = fold feedBody rounds d"
  shows "feed_rel d d'"
  using assms feedCalls_rounds[of needs streams d d'] feed_rel_fold by blast

lemma distributePacket_rejects:
  "\<not> fst (distributePacket p s d) \<Longrightarrow> snd (distributePacket p s d) = d"
  by (auto simp: distributePacket_def split: option.splits if_splits)

lemma dispatch_alt:
  "dispatch p s d =
     (if fst (distributePacket p s d) then snd (distributePacket p s d)
      else d\<lparr>freed := freed d @ [p]\<rparr>)"
  using distributePacket_rejects[of p s d] by (simp add: dispatch_def split_beta)

lemma feedBody_from_queue:
  assumes "m_pendingDataForActiveStreams d = xs @ p # ys"
    "\<forall>q\<in>set xs. \<not> canUsePacket (objects d s) q" "canUsePacket (objects d s) p"
  shows "gatherQueuedPacketForStream s d = (Some p, d\<lparr>m_pendingDataForActiveStreams := xs @ ys\<rparr>)"
    and "feedBody s d = dispatch p s (d\<lparr>m_pendingDataForActiveStreams := xs @ ys\<rparr>)"
proof -
  from assms show g: "gatherQueuedPacketForStream s d
      = (Some p, d\<lparr>m_pendingDataForActiveStreams := xs @ ys\<rparr>)"
    by (simp add: gatherQueuedPacketForStream_def gather_first_match)
  then show "feedBody s d = dispatch p s (d\<lparr>m_pendingDataForActiveStreams := xs @ ys\<rparr>)"
    by (simp add: feedBody_nextPacket nextPacket_def)
qed

lemma feedBody_from_container:
  assumes "\<forall>q\<in>set (m_pendingDataForActiveStreams d). \<not> canUsePacket (objects d s) q"
  shows "gatherQueuedPacketForStream s d = (None, d)"
    and "unread d = p # rest \<Longrightarrow>
           feedBody s d = dispatch p s (d\<lparr>m_formatCtx := (m_formatCtx d)\<lparr>ctx_packets := rest\<rparr>\<rparr>)"
    and "unread d = [] \<Longrightarrow> feedBody s d = d\<lparr>m_eofReached := True\<rparr>"
proof -
  let ?g = "gather (objects d s) (m_pendingDataForActiveStreams d)"
  from assms have "fst ?g = None" by (simp add: gather_None_iff)
  with gather_None_rest[OF this] have "?g = (None, m_pendingDataForActiveStreams d)"
    by (simp add: prod_eq_iff)
  then show g: "gatherQueuedPacketForStream s d = (None, d)"
    by (simp add: gatherQueuedPacketForStream_def)
  from g show "unread d = p # rest \<Longrightarrow>
           feedBody s d = dispatch p s (d\<lparr>m_formatCtx := (m_formatCtx d)\<lparr>ctx_packets := rest\<rparr>\<rparr>)"
    by (simp add: feedBody_nextPacket nextPacket_def readPacket_def unread_def)
  from g show "unread d = [] \<Longrightarrow> feedBody s d = d\<lparr>m_eofReached := True\<rparr>"
    by (simp add: feedBody_nextPacket nextPacket_def readPacket_def unread_def)
qed

lemmas feed_simps =
  requestMoreData_def feedStream_unfold feedBody_def gatherQueuedPacketForStream_def
  readPacket_def distributePacket_def getSelectedVideoStream_def pushEncodedData_def
  queueEncodedData_def isPassive_def canUsePacket_def didReachEndOfFile_def

lemmas scenario_simps =
  two_streams_def two_streams_ctx_def scenario_packets_def packet_def needs_two_def
  video_stream_def no_stream_def

lemma dispatch_unselected:
  "m_connectedVideoStream d = None \<Longrightarrow> dispatch p s d = d\<lparr>freed := freed d @ [p]\<rparr>"
  by (simp add: dispatch_cases split: option.splits)

lemma feedBody_unselected:
  assumes "m_connectedVideoStream d = None"
  shows "m_connectedVideoStream (feedBody s d) = None \<and> delivered (feedBody s d) = delivered d
         \<and> objects (feedBody s d) = objects d
         \<and> mset (m_pendingDataForActiveStreams (feedBody s d))
             \<subseteq># mset (m_pendingDataForActiveStreams d)"
proof (cases d s rule: feedBody_cases)
  case eof
  with assms show ?thesis by simp
next
  case (queued p xs ys)
  with assms show ?thesis by (simp add: dispatch_unselected)
next
  case (read p rest)
  with assms show ?thesis by (simp add: dispatch_unselected)
qed

lemma willSeek_pending: "m_pendingDataForActiveStreams (willSeek seek_file position d) = []"
  by (simp add: willSeek_def Let_def flushBuffers_def resetEndOfFileStatus_def
      sfeLogError_def split: prod.splits option.splits)

lemma willSeek_freed:
  "freed (willSeek seek_file position d) = freed d @ m_pendingDataForActiveStreams d"
  by (simp add: willSeek_def Let_def flushBuffers_def resetEndOfFileStatus_def
      sfeLogError_def split: prod.splits option.splits)

lemma willSeek_delivered: "delivered (willSeek seek_file position d) = delivered d"
  by (simp add: willSeek_def Let_def flushBuffers_def resetEndOfFileStatus_def
      sfeLogError_def split: prod.splits option.splits)

lemma received_by_append: "received_by a (xs @ ys) = received_by a xs @ received_by a ys"
  by (simp add: received_by_def)

lemma log_rel_refl: "log_rel d d"
  by (simp add: log_rel_def received_by_def)

lemma log_rel_trans:
  assumes "log_rel a b" "log_rel b c"
  shows "log_rel a c"
proof -
  from assms obtain n1 n2 where
    "delivered b = delivered a @ n1" "delivered c = delivered b @ n2"
    "\<forall>x. m_packetList (objects b x) = m_packetList (objects a x) @ received_by x n1"
    "\<forall>x. m_packetList (objects c x) = m_packetList (objects b x) @ received_by x n2"
    by (auto simp: log_rel_def)
  then have "delivered c = delivered a @ (n1 @ n2)
      \<and> (\<forall>x. m_packetList (objects c x) = m_packetList (objects a x) @ received_by x (n1 @ n2))"
    by (simp add: received_by_append)
  then show ?thesis unfolding log_rel_def by blast
qed

lemma log_rel_dispatch: "log_rel d (dispatch p s d)"
proof -
  have "log_rel d (pushEncodedData t p d)" for t
    unfolding log_rel_def
    by (rule exI[of _ "[(t, p)]"]) (simp add: pushEncodedData_def received_by_def)
  moreover have "log_rel d (queueEncodedData p d)" "log_rel d (d\<lparr>freed := freed d @ [p]\<rparr>)"
    unfolding log_rel_def
    by (rule exI[of _ "[]"], simp add: queueEncodedData_def received_by_def)+
  ultimately show ?thesis by (simp add: dispatch_cases split: option.splits)
qed

lemma log_rel_feedBody: "log_rel d (feedBody s d)"
proof (cases d s rule: feedBody_cases)
  case eof
  then show ?thesis by (simp add: log_rel_def received_by_def)
next
  case (queued p xs ys)
  from log_rel_dispatch[of "d\<lparr>m_pendingDataForActiveStreams := xs @ ys\<rparr>" p s] queued(4)
  show ?thesis by (simp add: log_rel_def)
next
  case (read p rest)
  from log_rel_dispatch[of "d\<lparr>m_formatCtx := (m_formatCtx d)\<lparr>ctx_packets := rest\<rparr>\<rparr>" p s]
    read(3)
  show ?thesis by (simp add: log_rel_def)
qed

lemma log_rel_fold: "log_rel d (fold feedBody rounds d)"
proof (induction rounds arbitrary: d)
  case Nil
  show ?case by (simp add: log_rel_refl)
next
  case (Cons s rounds)
  from log_rel_trans[OF log_rel_feedBody[of d s] Cons.IH[of "feedBody s d"]]
  show ?case by simp
qed

lemma log_rel_run:
  assumes "feedCalls needs streams d = Some d' \<or> d' = fold feedBody rounds d"
  shows "log_rel d d'"
  using assms feedCalls_rounds[of needs streams d d'] log_rel_fold by blast

subsection \<open>Rounds, selections and flushes\<close>

lemma dispatch_by_rule: "dispatched_by_rule s p x (dispatch p s x)"
  by (simp add: dispatched_by_rule_def dispatch_cases getSelectedVideoStream_def
      pushEncodedData_def queueEncodedData_def unread_def split: option.splits)

lemma account_rel_refl: "account_rel d d"
  by (simp add: account_rel_def)

lemma account_rel_trans:
  assumes "account_rel a b" "account_rel b c"
  shows "account_rel a c"
proof -
  from assms obtain r1 r2 where "unread a = r1 @ unread b" "unread b = r2 @ unread c"
    by (auto simp: account_rel_def)
  then have "unread a = (r1 @ r2) @ unread c" by simp
  then have "\<exists>rd. unread a = rd @ unread c" by blast
  with assms show ?thesis by (simp add: account_rel_def)
qed

lemma account_rel_perform: "account_rel d (perform op d)"
proof (cases op)
  case (Round s)
  with feedBody_conserve[of s d] feedBody_unread[of d s] show ?thesis
    by (simp add: account_rel_def)
next
  case (Select s)
  have "unread (snd (selectVideoStream s d)) = unread d"
    "accounted (snd (selectVideoStream s d)) = accounted d"
    by (simp_all add: selectVideoStream_def Let_def connect_def disconnect_def timer_pause_def
        timer_play_def unread_def accounted_def split: option.splits)
  with Select show ?thesis by (simp add: account_rel_def)
next
  case Flush
  then show ?thesis
    by (simp add: account_rel_def flushBuffers_def unread_def accounted_def)
qed

lemma account_rel_fold: "account_rel d (fold perform ops d)"
proof (induction ops arbitrary: d)
  case Nil
  show ?case by (simp add: account_rel_refl)
next
  case (Cons op ops)
  from account_rel_trans[OF account_rel_perform[of d op] Cons.IH[of "perform op d"]]
  show ?case by simp
qed

lemma account_rel_run:
  assumes "feedCalls needs streams d = Some d' \<or> d' = fold perform ops d"
  shows "account_rel d d'"
proof -
  from assms show ?thesis
  proof
    assume "feedCalls needs streams d = Some d'"
    then have "feed_rel d d'" by (rule feed_rel_run[OF disjI1])
    then show ?thesis by (simp add: feed_rel_def account_rel_def)
  next
    assume "d' = fold perform ops d"
    then show ?thesis by (simp add: account_rel_fold)
  qed
qed

subsection \<open>The constructor\<close>

lemma stream_name_named:
  "(\<exists>n. stream_name env ff = Inr n) \<longleftrightarrow> named ff"
  by (auto simp: stream_name_def named_def split: option.splits)

lemma named_video: "st_codec_type ff = AVMEDIA_TYPE_VIDEO \<Longrightarrow> named ff"
  by (simp add: named_def)

lemma loadStream_Inr_iff: "(\<exists>d'. loadStream env ff d = Inr d') \<longleftrightarrow> named ff"
  by (cases "st_codec_type ff")
     (auto simp: loadStream_def named_def stream_name_def Let_def split: sum.splits option.splits)

lemma findStreams_Inr_iff:
  "(\<exists>d'. findStreams env ffs d = Inr d') \<longleftrightarrow> (\<forall>ff\<in>set ffs. named ff)"
proof (induction ffs arbitrary: d)
  case Nil
  show ?case by simp
next
  case (Cons ff ffs)
  show ?case
  proof (cases "loadStream env ff d")
    case (Inl e)
    with loadStream_Inr_iff[of env ff d] show ?thesis by simp
  next
    case (Inr d1)
    with loadStream_Inr_iff[of env ff d] have "named ff" by blast
    with Inr Cons.IH[of d1] show ?thesis by simp
  qed
qed

lemma findStreams_append:
  "findStreams env (xs @ ys) d =
     (case findStreams env xs d of Inl e \<Rightarrow> Inl e | Inr d' \<Rightarrow> findStreams env ys d')"
  by (induction xs arbitrary: d) (simp_all split: sum.splits)

lemma findStreams_split:
  assumes "findStreams env (xs @ ff # ys) d = Inr d'"
  obtains d1 d2 where "findStreams env xs d = Inr d1" "loadStream env ff d1 = Inr d2"
    "findStreams env ys d2 = Inr d'"
  using assms by (auto simp: findStreams_append split: sum.splits)

lemma loadStream_streams:
  "loadStream env ff d = Inr d' \<Longrightarrow>
   map_of (m_streams d') k =
     (if st_index ff = k \<and> st_codec_type ff = AVMEDIA_TYPE_VIDEO
      then (case make_shared_VideoStream env ff of
              Inl _ \<Rightarrow> map_of (m_streams d) k
            | Inr r \<Rightarrow> Some (fst r))
      else map_of (m_streams d) k)"
  by (cases "st_codec_type ff")
     (auto simp: loadStream_def sfeLogError_def extractDurationFromStream_def Let_def
      map_of_map_assign split: sum.splits option.splits if_splits)

lemma loadStream_ignored:
  "loadStream env ff d = Inr d' \<Longrightarrow>
   map_of (m_ignoredStreams d') k =
     (if st_index ff = k \<and> st_codec_type ff \<noteq> AVMEDIA_TYPE_VIDEO
      then (case stream_name env ff of Inl _ \<Rightarrow> None | Inr n \<Rightarrow> Some n)
      else map_of (m_ignoredStreams d) k)"
  by (cases "st_codec_type ff")
     (auto simp: loadStream_def sfeLogError_def extractDurationFromStream_def Let_def
      map_of_map_assign split: sum.splits option.splits if_splits)

lemma loadStream_errlog:
  "loadStream env ff d = Inr d' \<Longrightarrow>
   errlog d' =
     (if st_codec_type ff = AVMEDIA_TYPE_VIDEO
      then (case make_shared_VideoStream env ff of
              Inl what \<Rightarrow>
                errlog d @ [StreamLoadError
                              (CHR 0x27 # ''video/'' @ avcodec_get_name env ff @ [CHR 0x27]) what]
            | Inr _ \<Rightarrow> errlog d)
      else errlog d)"
  by (cases "st_codec_type ff")
     (auto simp: loadStream_def sfeLogError_def extractDurationFromStream_def Let_def
      stream_name_def split: sum.splits option.splits if_splits)

lemma loadStream_duration:
  "loadStream env ff d = Inr d' \<Longrightarrow>
   m_duration d' =
     (if m_duration d = 0 \<and> gives_duration env ff
      then resolve env (the (st_duration ff)) else m_duration d)"
  by (cases "st_codec_type ff")
     (auto simp: loadStream_def sfeLogError_def extractDurationFromStream_def Let_def
      gives_duration_def loads_def resolve_def split: sum.splits option.splits if_splits)

lemma findStreams_streams_other:
  "findStreams env ffs d = Inr d' \<Longrightarrow> k \<notin> st_index ` set ffs \<Longrightarrow>
     map_of (m_streams d') k = map_of (m_streams d) k"
  by (induction ffs arbitrary: d) (auto simp: loadStream_streams split: sum.splits)

lemma findStreams_ignored_other:
  "findStreams env ffs d = Inr d' \<Longrightarrow> k \<notin> st_index ` set ffs \<Longrightarrow>
     map_of (m_ignoredStreams d') k = map_of (m_ignoredStreams d) k"
  by (induction ffs arbitrary: d) (auto simp: loadStream_ignored split: sum.splits)

lemma findStreams_errlog_mono:
  "findStreams env ffs d = Inr d' \<Longrightarrow> set (errlog d) \<subseteq> set (errlog d')"
proof (induction ffs arbitrary: d)
  case Nil
  then show ?case by simp
next
  case (Cons ff ffs)
  then obtain d1 where 1: "loadStream env ff d = Inr d1" and 2: "findStreams env ffs d1 = Inr d'"
    by (auto split: sum.splits)
  from 1 have "set (errlog d) \<subseteq> set (errlog d1)"
    by (auto simp: loadStream_errlog split: sum.splits)
  with Cons.IH[OF 2] show ?case by auto
qed

lemma distinct_index_split:
  assumes "distinct (map st_index ffs)" "ff \<in> set ffs"
  obtains xs ys where "ffs = xs @ ff # ys" "st_index ff \<notin> st_index ` set xs"
    "st_index ff \<notin> st_index ` set ys"
proof -
  from assms(2) obtain xs ys where s: "ffs = xs @ ff # ys" by (auto simp: in_set_conv_decomp)
  with assms(1) have "st_index ff \<notin> st_index ` set xs" "st_index ff \<notin> st_index ` set ys"
    by auto
  with s that show thesis by blast
qed

lemma findStreams_stream_entry:
  assumes "distinct (map st_index ffs)" "ff \<in> set ffs" "findStreams env ffs d = Inr d'"
    "map_of (m_streams d) (st_index ff) = None" "map_of (m_ignoredStreams d) (st_index ff) = None"
  shows "map_of (m_streams d') (st_index ff) =
           (if st_codec_type ff = AVMEDIA_TYPE_VIDEO
            then (case make_shared_VideoStream env ff of Inl _ \<Rightarrow> None | Inr r \<Rightarrow> Some (fst r))
            else None)"
    and "map_of (m_ignoredStreams d') (st_index ff) =
           (if st_codec_type ff = AVMEDIA_TYPE_VIDEO then None
            else (case stream_name env ff of Inl _ \<Rightarrow> None | Inr n \<Rightarrow> Some n))"
    and "st_codec_type ff = AVMEDIA_TYPE_VIDEO \<Longrightarrow> make_shared_VideoStream env ff = Inl what \<Longrightarrow>
           StreamLoadError (CHR 0x27 # ''video/'' @ avcodec_get_name env ff @ [CHR 0x27]) what
             \<in> set (errlog d')"
    and "named ff"
proof -
  from assms(1,2) obtain xs ys where s: "ffs = xs @ ff # ys"
    and nx: "st_index ff \<notin> st_index ` set xs" and ny: "st_index ff \<notin> st_index ` set ys"
    by (rule distinct_index_split)
  from assms(3) s obtain d1 d2 where f: "findStreams env xs d = Inr d1"
    "loadStream env ff d1 = Inr d2" "findStreams env ys d2 = Inr d'"
    by (auto elim: findStreams_split)
  from nx assms(4,5) f(1) have 1: "map_of (m_streams d1) (st_index ff) = None"
    "map_of (m_ignoredStreams d1) (st_index ff) = None"
    by (simp_all add: findStreams_streams_other findStreams_ignored_other)
  from f(2) loadStream_Inr_iff[of env ff d1] show "named ff" by blast
  from ny 1 f(2,3) show "map_of (m_streams d') (st_index ff) =
           (if st_codec_type ff = AVMEDIA_TYPE_VIDEO
            then (case make_shared_VideoStream env ff of Inl _ \<Rightarrow> None | Inr r \<Rightarrow> Some (fst r))
            else None)"
    by (simp add: findStreams_streams_other loadStream_streams split: sum.splits)
  from ny 1 f(2,3) show "map_of (m_ignoredStreams d') (st_index ff) =
           (if st_codec_type ff = AVMEDIA_TYPE_VIDEO then None
            else (case stream_name env ff of Inl _ \<Rightarrow> None | Inr n \<Rightarrow> Some n))"
    by (simp add: findStreams_ignored_other loadStream_ignored)
  show "StreamLoadError (CHR 0x27 # ''video/'' @ avcodec_get_name env ff @ [CHR 0x27]) what
             \<in> set (errlog d')"
    if "st_codec_type ff = AVMEDIA_TYPE_VIDEO" "make_shared_VideoStream env ff = Inl what"
  proof -
    from that f(2) have "StreamLoadError
        (CHR 0x27 # ''video/'' @ avcodec_get_name env ff @ [CHR 0x27]) what \<in> set (errlog d2)"
      by (simp add: loadStream_errlog)
    with findStreams_errlog_mono[OF f(3)] show ?thesis by blast
  qed
qed

lemma findStreams_duration_none:
  "findStreams env ffs d = Inr d' \<Longrightarrow> \<forall>ff\<in>set ffs. \<not> gives_duration env ff \<Longrightarrow>
     m_duration d' = m_duration d"
  by (induction ffs arbitrary: d) (auto simp: loadStream_duration split: sum.splits)

lemma findStreams_duration_kept:
  "findStreams env ffs d = Inr d' \<Longrightarrow> m_duration d \<noteq> 0 \<Longrightarrow> m_duration d' = m_duration d"
  by (induction ffs arbitrary: d) (auto simp: loadStream_duration split: sum.splits)

lemma findStreams_duration_first:
  assumes "findStreams env (xs @ ff # ys) d = Inr d'"
    "m_duration d = 0" "\<forall>x\<in>set xs. \<not> gives_duration env x" "gives_duration env ff"
    "st_duration ff = Some dur"
  shows "m_duration d' = resolve env dur"
proof -
  from assms(1) obtain d1 d2 where f: "findStreams env xs d = Inr d1"
    "loadStream env ff d1 = Inr d2" "findStreams env ys d2 = Inr d'"
    by (rule findStreams_split)
  from f(1) assms(2,3) have "m_duration d1 = 0"
    by (simp add: findStreams_duration_none)
  with f(2) assms(4,5) have "m_duration d2 = resolve env dur"
    by (simp add: loadStream_duration)
  moreover from assms(4,5) have "resolve env dur \<noteq> 0" by (simp add: gives_duration_def)
  ultimately show ?thesis using f(3) by (simp add: findStreams_duration_kept)
qed

lemma Demuxer_ctor_fails:
  "sourceFile = [] \<or> timer = None \<or> fst (avformat_open_input env) \<noteq> 0
     \<or> snd (avformat_open_input env) = None \<or> avformat_find_stream_info env \<noteq> 0
   \<Longrightarrow> \<exists>e. Demuxer_ctor env sourceFile timer = Inl e"
  by (auto simp: Demuxer_ctor_def split: option.splits prod.splits)

lemma Demuxer_ctor_load:
  assumes "sourceFile \<noteq> []" "timer = Some tm" "avformat_open_input env = (0, Some ctx)"
    "avformat_find_stream_info env = 0"
  shows "Demuxer_ctor env sourceFile timer = Demuxer_load env ctx tm"
  using assms by (simp add: Demuxer_ctor_def)

lemma Demuxer_ctor_Inr:
  assumes "Demuxer_ctor env sourceFile timer = Inr d" "snd (avformat_open_input env) = Some ctx"
  obtains tm where "Demuxer_load env ctx tm = Inr d"
  using assms by (auto simp: Demuxer_ctor_def split: option.splits prod.splits if_splits)

lemma Demuxer_load_start:
  "Demuxer_load env ctx tm =
     (case findStreams env (ctx_streams ctx) (Demuxer_start env ctx tm) of
        Inl e \<Rightarrow> Inl e
      | Inr d2 \<Rightarrow> Inr (if m_duration d2 = 0 then sfeLogError DurationWarning d2 else d2))"
  by (cases "ctx_duration ctx") (simp_all add: Demuxer_load_def Demuxer_start_def Let_def resolve_def)

lemma Demuxer_load_Inr:
  assumes "Demuxer_load env ctx tm = Inr d"
  obtains d2 where "findStreams env (ctx_streams ctx) (Demuxer_start env ctx tm) = Inr d2"
    "m_streams d = m_streams d2" "m_ignoredStreams d = m_ignoredStreams d2"
    "set (errlog d2) \<subseteq> set (errlog d)" "m_duration d = m_duration d2"
proof -
  from assms obtain d2 where
    f: "findStreams env (ctx_streams ctx) (Demuxer_start env ctx tm) = Inr d2"
    and d: "d = (if m_duration d2 = 0 then sfeLogError DurationWarning d2 else d2)"
    by (auto simp: Demuxer_load_start split: sum.splits)
  from d have "m_streams d = m_streams d2" "m_ignoredStreams d = m_ignoredStreams d2"
    "set (errlog d2) \<subseteq> set (errlog d)" "m_duration d = m_duration d2"
    by (auto simp: sfeLogError_def)
  with f that show thesis by blast
qed

lemma Demuxer_load_Inr_iff:
  "(\<exists>d. Demuxer_load env ctx tm = Inr d) \<longleftrightarrow> (\<forall>ff\<in>set (ctx_streams ctx). named ff)"
  using findStreams_Inr_iff[of env "ctx_streams ctx" "Demuxer_start env ctx tm"]
  by (auto simp: Demuxer_load_start split: sum.splits)

lemma Demuxer_start_empty:
  "map_of (m_streams (Demuxer_start env ctx tm)) k = None"
  "map_of (m_ignoredStreams (Demuxer_start env ctx tm)) k = None"
  "m_duration (Demuxer_start env ctx tm)
     = (case ctx_duration ctx of None \<Rightarrow> 0 | Some dur \<Rightarrow> resolve env dur)"
  by (simp_all add: Demuxer_start_def Demuxer_init_def split: option.splits)

lemma Demuxer_ctor_succeeds:
  assumes "sourceFile \<noteq> []" "timer \<noteq> None" "avformat_open_input env = (0, Some ctx)"
    "avformat_find_stream_info env = 0" "\<forall>ff\<in>set (ctx_streams ctx). named ff"
  shows "\<exists>d. Demuxer_ctor env sourceFile timer = Inr d"
proof -
  from assms(2) obtain tm where "timer = Some tm" by auto
  with assms(1,3,4) have "Demuxer_ctor env sourceFile timer = Demuxer_load env ctx tm"
    by (simp add: Demuxer_ctor_def)
  with assms(5) show ?thesis by (simp add: Demuxer_load_Inr_iff)
qed

lemma Demuxer_ctor_unnamed:
  assumes "sourceFile \<noteq> []" "timer \<noteq> None" "avformat_open_input env = (0, Some ctx)"
    "avformat_find_stream_info env = 0" "\<exists>ff\<in>set (ctx_streams ctx). \<not> named ff"
  shows "\<exists>e. Demuxer_ctor env sourceFile timer = Inl e"
proof -
  from assms(2) obtain tm where "timer = Some tm" by auto
  with assms(1,3,4) have c: "Demuxer_ctor env sourceFile timer = Demuxer_load env ctx tm"
    by (simp add: Demuxer_ctor_def)
  from assms(5) Demuxer_load_Inr_iff[of env ctx tm] have "\<not> (\<exists>d. Demuxer_load env ctx tm = Inr d)"
    by blast
  then show ?thesis unfolding c by (cases "Demuxer_load env ctx tm") auto
qed

lemma feedCalls_duration:
  "feedCalls needs streams d = Some d' \<Longrightarrow> m_duration d' = m_duration d"
  using feed_rel_run[of needs streams d d'] by (simp add: feed_rel_def same_attributes_def)

lemma willSeek_duration: "m_duration (willSeek seek_file position d) = m_duration d"
  by (simp add: willSeek_def Let_def flushBuffers_def resetEndOfFileStatus_def
      sfeLogError_def split: prod.splits option.splits)

lemma selectVideoStream_duration: "m_duration (snd (selectVideoStream stream d)) = m_duration d"
  by (simp add: selectVideoStream_def Let_def connect_def disconnect_def timer_pause_def
      timer_play_def split: option.splits)

lemma selectFirstVideoStream_duration: "m_duration (snd (selectFirstVideoStream d)) = m_duration d"
  by (simp add: selectFirstVideoStream_def Let_def selectVideoStream_duration split: list.splits)

lemmas ctor_simps =
  Demuxer_ctor_def Demuxer_load_def Demuxer_init_def loadStream_def stream_name_def
  extractDurationFromStream_def sfeLogError_def Let_def AV_TIME_BASE_def
  signed_divide_int_def signed_modulo_int_def getDuration_def

lemmas env_simps =
  test_env_def container_def ffstream_def allocate_def codec_name_def seconds_exact_def
  video_stream_def no_stream_def resolve_def

lemma two_streams_constructed:
  "map_sum id (snd \<circ> selectVideoStream (Some 1))
     (Demuxer_ctor (test_env (two_streams_ctx packets) (allocate (\<lambda>i. nat i + 1)))
        ''movie.ogv'' (Some Stopped))
   = Inr (two_streams packets [])"
  by (simp add: ctor_simps test_env_def allocate_def two_streams_ctx_def two_streams_def
      video_stream_def selectVideoStream_def connect_def fun_eq_iff)

text \<open>
  A container with a stream of unknown media type: the text of the stream cannot
  be built, and the exception leaves the constructor.
\<close>

lemma unnamed_stream_throws:
  "Demuxer_ctor unnamed_env ''movie.ogv'' (Some Stopped)
     = Inl (logic_error ''basic_string::_S_construct null not valid'')"
  by (simp add: ctor_simps env_simps unnamed_env_def unnamed_container_def)

section \<open>The claims\<close>

text \<open>
  C1, as amended. Let a round of the feed loop read a packet from the container
  whose destination exists in the table. The packet is pushed to the
  destination when the destination is the selected stream and is the requester
  or passive. It is appended to the pending queue, neither pushed nor freed,
  when the destination is the selected stream but is neither the requester nor
  passive; a later seek then frees it, and it is never pushed. When the
  destination is not the selected stream, the packet is freed at once and is
  neither queued nor pushed.
\<close>

theorem C1_dispatch_of_read_packet:
  assumes "\<forall>q\<in>set (m_pendingDataForActiveStreams d). \<not> canUsePacket (objects d stream) q"
    and "unread d = pkt # rest"
    and "map_of (m_streams d) (stream_index pkt) = Some target"
  shows "(getSelectedVideoStream d = Some target
            \<and> (target = stream \<or> isPassive (objects d target))
          \<longrightarrow> delivered (feedBody stream d) = delivered d @ [(target, pkt)]
            \<and> m_pendingDataForActiveStreams (feedBody stream d) = m_pendingDataForActiveStreams d
            \<and> freed (feedBody stream d) = freed d)
       \<and> (getSelectedVideoStream d = Some target
            \<and> target \<noteq> stream \<and> \<not> isPassive (objects d target)
          \<longrightarrow> m_pendingDataForActiveStreams (feedBody stream d)
                = m_pendingDataForActiveStreams d @ [pkt]
            \<and> delivered (feedBody stream d) = delivered d
            \<and> freed (feedBody stream d) = freed d
            \<and> m_pendingDataForActiveStreams (willSeek seek_file position (feedBody stream d)) = []
            \<and> freed (willSeek seek_file position (feedBody stream d))
                = freed d @ m_pendingDataForActiveStreams d @ [pkt]
            \<and> delivered (willSeek seek_file position (feedBody stream d)) = delivered d)
       \<and> (getSelectedVideoStream d \<noteq> Some target
          \<longrightarrow> m_pendingDataForActiveStreams (feedBody stream d) = m_pendingDataForActiveStreams d
            \<and> delivered (feedBody stream d) = delivered d
            \<and> freed (feedBody stream d) = freed d @ [pkt])
       \<and> unread (feedBody stream d) = rest"
proof -
  let ?d1 = "d\<lparr>m_formatCtx := (m_formatCtx d)\<lparr>ctx_packets := rest\<rparr>\<rparr>"
  from feedBody_from_container(2)[OF assms(1,2)]
  have fb: "feedBody stream d = dispatch pkt stream ?d1" .
  from assms(3) have
    "dispatch pkt stream ?d1 =
       (if m_connectedVideoStream d = Some target
        then (if target = stream \<or> isPassive (objects d target)
              then pushEncodedData target pkt ?d1
              else queueEncodedData pkt ?d1)
        else ?d1\<lparr>freed := freed d @ [pkt]\<rparr>)"
    by (simp add: dispatch_cases)
  with fb have f: "feedBody stream d =
       (if m_connectedVideoStream d = Some target
        then (if target = stream \<or> isPassive (objects d target)
              then pushEncodedData target pkt ?d1
              else queueEncodedData pkt ?d1)
        else ?d1\<lparr>freed := freed d @ [pkt]\<rparr>)"
    by simp
  show ?thesis
    by (simp add: f getSelectedVideoStream_def pushEncodedData_def queueEncodedData_def
        unread_def willSeek_pending willSeek_freed willSeek_delivered)
qed

text \<open>
  The claim as it was stated fails: stream B (identifier 1, at address 2) is in
  the table and A is selected; the packet read for B is rejected by
  \<open>distributePacket\<close> (called on the state that \<open>readPacket\<close> leaves, with an empty
  container) and freed by the loop, and the queue stays empty.
\<close>

theorem C1_counterexample:
  "map_of (m_streams (two_streams [packet 100 1] [])) (stream_index (packet 100 1)) = Some 2
   \<and> getSelectedVideoStream (two_streams [packet 100 1] []) = Some 1
   \<and> unread (two_streams [packet 100 1] []) = [packet 100 1]
   \<and> fst (distributePacket (packet 100 1) 1 (two_streams [] [])) = False
   \<and> m_pendingDataForActiveStreams (feedBody 1 (two_streams [packet 100 1] [])) = []
   \<and> freed (feedBody 1 (two_streams [packet 100 1] [])) = [packet 100 1]"
  by (simp add: feed_simps scenario_simps unread_def)

theorem C1_witness:
  "delivered (feedBody 1 (two_streams [packet 101 0] [])) = [(1, packet 101 0)]
   \<and> m_pendingDataForActiveStreams (feedBody 2 (two_streams [packet 101 0] [])) = [packet 101 0]
   \<and> delivered (feedBody 2 (two_streams [packet 101 0] [])) = []
   \<and> freed (feedBody 2 (two_streams [packet 101 0] [])) = []
   \<and> freed (willSeek failing_seek 0 (feedBody 2 (two_streams [packet 101 0] []))) = [packet 101 0]
   \<and> delivered (willSeek failing_seek 0 (feedBody 2 (two_streams [packet 101 0] []))) = []
   \<and> freed (feedBody 1 (two_streams [packet 100 1] [])) = [packet 100 1]
   \<and> m_pendingDataForActiveStreams (feedBody 1 (two_streams [packet 100 1] [])) = []"
proof -
  let ?a = "two_streams [packet 101 0] []"
  let ?b = "two_streams [packet 100 1] []"
  have ha: "\<forall>q\<in>set (m_pendingDataForActiveStreams ?a). \<not> canUsePacket (objects ?a 1) q"
    "\<forall>q\<in>set (m_pendingDataForActiveStreams ?a). \<not> canUsePacket (objects ?a 2) q"
    "unread ?a = packet 101 0 # []"
    "map_of (m_streams ?a) (stream_index (packet 101 0)) = Some 1"
    by (simp_all add: scenario_simps unread_def)
  have hb: "\<forall>q\<in>set (m_pendingDataForActiveStreams ?b). \<not> canUsePacket (objects ?b 1) q"
    "unread ?b = packet 100 1 # []"
    "map_of (m_streams ?b) (stream_index (packet 100 1)) = Some 2"
    by (simp_all add: scenario_simps unread_def)
  have sel: "getSelectedVideoStream ?a = Some 1" "\<not> isPassive (objects ?a 1)"
    "getSelectedVideoStream ?b \<noteq> Some 2"
    "delivered ?a = []" "freed ?a = []" "m_pendingDataForActiveStreams ?a = []"
    "freed ?b = []" "m_pendingDataForActiveStreams ?b = []"
    by (simp_all add: scenario_simps getSelectedVideoStream_def isPassive_def)
  from C1_dispatch_of_read_packet[OF ha(1) ha(3) ha(4), of failing_seek 0]
    C1_dispatch_of_read_packet[OF ha(2) ha(3) ha(4), of failing_seek 0]
    C1_dispatch_of_read_packet[OF hb(1) hb(2) hb(3), of failing_seek 0] sel
  show ?thesis by simp
qed

text \<open>
  C2. The feed loop runs a round exactly while the end-of-file flag is false
  and the requester needs data, and when it returns one of the two fails; it
  returns whenever no round can put a packet of the requester back into the
  queue. A round takes the first queued packet the requester can use and leaves
  the others in their order; without one it takes the next packet of the
  container; without one it sets the end-of-file flag, and the loop stops. The
  packet taken is dispatched, and freed when \<open>distributePacket\<close> returns false.
\<close>

theorem C2_feed_loop:
  "feedStream needs stream d =
     (if \<not> didReachEndOfFile d \<and> needs (objects d stream)
      then feedStream needs stream (feedBody stream d) else Some d)
   \<and> (\<forall>d'. feedStream needs stream d = Some d'
          \<longrightarrow> didReachEndOfFile d' \<or> \<not> needs (objects d' stream))
   \<and> (\<not> can_requeue stream d \<longrightarrow> (\<exists>d'. feedStream needs stream d = Some d'))
   \<and> (\<forall>xs p ys. m_pendingDataForActiveStreams d = xs @ p # ys
          \<and> (\<forall>q\<in>set xs. \<not> canUsePacket (objects d stream) q)
          \<and> canUsePacket (objects d stream) p
        \<longrightarrow> gatherQueuedPacketForStream stream d
              = (Some p, d\<lparr>m_pendingDataForActiveStreams := xs @ ys\<rparr>)
          \<and> feedBody stream d = dispatch p stream (d\<lparr>m_pendingDataForActiveStreams := xs @ ys\<rparr>))
   \<and> ((\<forall>q\<in>set (m_pendingDataForActiveStreams d). \<not> canUsePacket (objects d stream) q)
        \<longrightarrow> gatherQueuedPacketForStream stream d = (None, d)
          \<and> (\<forall>p rest. unread d = p # rest
                \<longrightarrow> feedBody stream d
                     = dispatch p stream (d\<lparr>m_formatCtx := (m_formatCtx d)\<lparr>ctx_packets := rest\<rparr>\<rparr>))
          \<and> (unread d = []
                \<longrightarrow> feedBody stream d = d\<lparr>m_eofReached := True\<rparr>
                  \<and> feedStream needs stream (feedBody stream d) = Some (feedBody stream d)))
   \<and> (\<forall>p d2. dispatch p stream d2 =
          (if fst (distributePacket p stream d2) then snd (distributePacket p stream d2)
           else d2\<lparr>freed := freed d2 @ [p]\<rparr>))"
proof -
  have 1: "feedStream needs stream d =
     (if \<not> didReachEndOfFile d \<and> needs (objects d stream)
      then feedStream needs stream (feedBody stream d) else Some d)"
    by (rule feedStream_unfold)
  have 2: "\<forall>d'. feedStream needs stream d = Some d'
          \<longrightarrow> didReachEndOfFile d' \<or> \<not> needs (objects d' stream)"
    by (blast dest: feedStream_stops)
  have 3: "\<not> can_requeue stream d \<longrightarrow> (\<exists>d'. feedStream needs stream d = Some d')"
    by (blast intro: feedStream_terminates)
  have 4: "\<forall>xs p ys. m_pendingDataForActiveStreams d = xs @ p # ys
          \<and> (\<forall>q\<in>set xs. \<not> canUsePacket (objects d stream) q)
          \<and> canUsePacket (objects d stream) p
        \<longrightarrow> gatherQueuedPacketForStream stream d
              = (Some p, d\<lparr>m_pendingDataForActiveStreams := xs @ ys\<rparr>)
          \<and> feedBody stream d = dispatch p stream (d\<lparr>m_pendingDataForActiveStreams := xs @ ys\<rparr>)"
    using feedBody_from_queue[of d _ _ _ stream] by blast
  have 5: "(\<forall>q\<in>set (m_pendingDataForActiveStreams d). \<not> canUsePacket (objects d stream) q)
        \<longrightarrow> gatherQueuedPacketForStream stream d = (None, d)
          \<and> (\<forall>p rest. unread d = p # rest
                \<longrightarrow> feedBody stream d
                     = dispatch p stream (d\<lparr>m_formatCtx := (m_formatCtx d)\<lparr>ctx_packets := rest\<rparr>\<rparr>))
          \<and> (unread d = []
                \<longrightarrow> feedBody stream d = d\<lparr>m_eofReached := True\<rparr>
                  \<and> feedStream needs stream (feedBody stream d) = Some (feedBody stream d))"
  proof
    assume a: "\<forall>q\<in>set (m_pendingDataForActiveStreams d). \<not> canUsePacket (objects d stream) q"
    have "feedStream needs stream (d\<lparr>m_eofReached := True\<rparr>) = Some (d\<lparr>m_eofReached := True\<rparr>)"
      by (subst feedStream_unfold) (simp add: didReachEndOfFile_def)
    with feedBody_from_container[OF a]
    show "gatherQueuedPacketForStream stream d = (None, d)
          \<and> (\<forall>p rest. unread d = p # rest
                \<longrightarrow> feedBody stream d
                     = dispatch p stream (d\<lparr>m_formatCtx := (m_formatCtx d)\<lparr>ctx_packets := rest\<rparr>\<rparr>))
          \<and> (unread d = []
                \<longrightarrow> feedBody stream d = d\<lparr>m_eofReached := True\<rparr>
                  \<and> feedStream needs stream (feedBody stream d) = Some (feedBody stream d))"
      by simp
  qed
  have 6: "\<forall>p d2. dispatch p stream d2 =
          (if fst (distributePacket p stream d2) then snd (distributePacket p stream d2)
           else d2\<lparr>freed := freed d2 @ [p]\<rparr>)"
    using dispatch_alt by blast
  from 1 2 3 4 5 6 show ?thesis by blast
qed

theorem C2_witness:
  "(\<exists>d'. feedStream needs_two 1
            (two_streams [packet 103 0] [packet 100 1, packet 101 0, packet 102 0]) = Some d'
        \<and> (didReachEndOfFile d' \<or> \<not> needs_two (objects d' 1)))
   \<and> gatherQueuedPacketForStream 1
        (two_streams [packet 103 0] [packet 100 1, packet 101 0, packet 102 0])
      = (Some (packet 101 0),
         (two_streams [packet 103 0] [packet 100 1, packet 101 0, packet 102 0])
           \<lparr>m_pendingDataForActiveStreams := [packet 100 1] @ [packet 102 0]\<rparr>)
   \<and> feedBody 1 (two_streams [packet 103 0] [packet 100 1])
      = dispatch (packet 103 0) 1
          ((two_streams [packet 103 0] [packet 100 1])
             \<lparr>m_formatCtx := (m_formatCtx (two_streams [packet 103 0] [packet 100 1]))
                               \<lparr>ctx_packets := []\<rparr>\<rparr>)
   \<and> feedBody 1 (two_streams [] [packet 100 1])
      = (two_streams [] [packet 100 1])\<lparr>m_eofReached := True\<rparr>
   \<and> feedStream needs_two 1 (feedBody 1 (two_streams [] [packet 100 1]))
      = Some (feedBody 1 (two_streams [] [packet 100 1]))"
proof -
  let ?q = "two_streams [packet 103 0] [packet 100 1, packet 101 0, packet 102 0]"
  let ?c = "two_streams [packet 103 0] [packet 100 1]"
  let ?e = "two_streams [] [packet 100 1]"
  note q = C2_feed_loop[of needs_two 1 ?q]
  note c = C2_feed_loop[of needs_two 1 ?c]
  note e = C2_feed_loop[of needs_two 1 ?e]
  have "\<not> can_requeue 1 ?q" by (simp add: can_requeue_def scenario_simps)
  with q obtain d' where r: "feedStream needs_two 1 ?q = Some d'" by blast
  with q have 1: "\<exists>d'. feedStream needs_two 1 ?q = Some d'
        \<and> (didReachEndOfFile d' \<or> \<not> needs_two (objects d' 1))" by blast
  have hq: "m_pendingDataForActiveStreams ?q = [packet 100 1] @ packet 101 0 # [packet 102 0]
      \<and> (\<forall>x\<in>set [packet 100 1]. \<not> canUsePacket (objects ?q 1) x)
      \<and> canUsePacket (objects ?q 1) (packet 101 0)"
    by (simp add: scenario_simps canUsePacket_def)
  with q have 2: "gatherQueuedPacketForStream 1 ?q
      = (Some (packet 101 0), ?q\<lparr>m_pendingDataForActiveStreams := [packet 100 1] @ [packet 102 0]\<rparr>)"
    by blast
  have hc: "\<forall>x\<in>set (m_pendingDataForActiveStreams ?c). \<not> canUsePacket (objects ?c 1) x"
    "unread ?c = packet 103 0 # []"
    by (simp_all add: scenario_simps canUsePacket_def unread_def)
  with c have 3: "feedBody 1 ?c
      = dispatch (packet 103 0) 1 (?c\<lparr>m_formatCtx := (m_formatCtx ?c)\<lparr>ctx_packets := []\<rparr>\<rparr>)"
    by blast
  have he: "\<forall>x\<in>set (m_pendingDataForActiveStreams ?e). \<not> canUsePacket (objects ?e 1) x"
    "unread ?e = []"
    by (simp_all add: scenario_simps canUsePacket_def unread_def)
  with e have 4: "feedBody 1 ?e = ?e\<lparr>m_eofReached := True\<rparr>
      \<and> feedStream needs_two 1 (feedBody 1 ?e) = Some (feedBody 1 ?e)"
    by blast
  from 1 2 3 4 show ?thesis by blast
qed

text \<open>
  C3, as amended. A round of the feed loop that takes a packet, the first
  queued packet the requester can use or else the next packet of the container,
  delivers it once when its destination is the selected stream and is the
  requester or passive, queues it when the destination is the selected stream
  and is neither, and frees it at once in every other case; a round without a
  packet sets the end-of-file flag. Over any sequence of feed calls, and over
  any sequence of rounds, selections and flushes, every packet read from the
  container is in exactly one place: queued, freed, or delivered. A flush frees
  the queued packets, and then every packet read is either freed or delivered
  to one stream, never both and never neither.
\<close>

theorem C3_packets_delivered_or_freed:
  assumes "feedCalls needsMoreData streams d = Some d' \<or> d' = fold perform ops d"
  shows "(\<forall>stream (x::Demuxer) xs p ys.
            m_pendingDataForActiveStreams x = xs @ p # ys
            \<and> (\<forall>q\<in>set xs. \<not> canUsePacket (objects x stream) q)
            \<and> canUsePacket (objects x stream) p
          \<longrightarrow> dispatched_by_rule stream p (x\<lparr>m_pendingDataForActiveStreams := xs @ ys\<rparr>)
                (feedBody stream x))
       \<and> (\<forall>stream (x::Demuxer) p rest.
            (\<forall>q\<in>set (m_pendingDataForActiveStreams x). \<not> canUsePacket (objects x stream) q)
            \<and> unread x = p # rest
          \<longrightarrow> dispatched_by_rule stream p
                (x\<lparr>m_formatCtx := (m_formatCtx x)\<lparr>ctx_packets := rest\<rparr>\<rparr>) (feedBody stream x))
       \<and> (\<forall>stream (x::Demuxer).
            (\<forall>q\<in>set (m_pendingDataForActiveStreams x). \<not> canUsePacket (objects x stream) q)
            \<and> unread x = []
          \<longrightarrow> feedBody stream x = x\<lparr>m_eofReached := True\<rparr>)
       \<and> (\<exists>rd. unread d = rd @ unread d'
           \<and> accounted d' = mset rd + accounted d
           \<and> m_pendingDataForActiveStreams (flushBuffers d') = []
           \<and> freed (flushBuffers d') = freed d' @ m_pendingDataForActiveStreams d'
           \<and> delivered (flushBuffers d') = delivered d'
           \<and> mset (freed (flushBuffers d')) + mset (map snd (delivered (flushBuffers d')))
               = mset rd + accounted d
           \<and> (distinct (unread d @ m_pendingDataForActiveStreams d @ freed d
                          @ map snd (delivered d))
                \<longrightarrow> distinct (m_pendingDataForActiveStreams d' @ freed d' @ map snd (delivered d'))
                  \<and> distinct (freed (flushBuffers d') @ map snd (delivered (flushBuffers d')))
                  \<and> (\<forall>p\<in>set rd. (p \<in> set (freed (flushBuffers d')))
                                   \<noteq> (p \<in> snd ` set (delivered (flushBuffers d'))))))"
proof -
  let ?pend = m_pendingDataForActiveStreams
  have A1: "\<forall>stream (x::Demuxer) xs p ys.
            ?pend x = xs @ p # ys
            \<and> (\<forall>q\<in>set xs. \<not> canUsePacket (objects x stream) q)
            \<and> canUsePacket (objects x stream) p
          \<longrightarrow> dispatched_by_rule stream p (x\<lparr>m_pendingDataForActiveStreams := xs @ ys\<rparr>)
                (feedBody stream x)"
    by (simp add: feedBody_from_queue(2) dispatch_by_rule)
  have A2: "\<forall>stream (x::Demuxer) p rest.
            (\<forall>q\<in>set (?pend x). \<not> canUsePacket (objects x stream) q)
            \<and> unread x = p # rest
          \<longrightarrow> dispatched_by_rule stream p
                (x\<lparr>m_formatCtx := (m_formatCtx x)\<lparr>ctx_packets := rest\<rparr>\<rparr>) (feedBody stream x)"
    by (simp add: feedBody_from_container(2) dispatch_by_rule)
  have A3: "\<forall>stream (x::Demuxer).
            (\<forall>q\<in>set (?pend x). \<not> canUsePacket (objects x stream) q)
            \<and> unread x = []
          \<longrightarrow> feedBody stream x = x\<lparr>m_eofReached := True\<rparr>"
    by (simp add: feedBody_from_container(3))
  from account_rel_run[OF assms] obtain rd where
    rd: "unread d = rd @ unread d'"
    and cons: "mset (unread d') + accounted d' = mset (unread d) + accounted d"
    by (auto simp: account_rel_def)
  from rd cons have acc: "accounted d' = mset rd + accounted d" by simp
  have fl: "?pend (flushBuffers d') = []" "freed (flushBuffers d') = freed d' @ ?pend d'"
    "delivered (flushBuffers d') = delivered d'"
    by (simp_all add: flushBuffers_def)
  from acc fl have tot: "mset (freed (flushBuffers d')) + mset (map snd (delivered (flushBuffers d')))
               = mset rd + accounted d"
    by (simp add: accounted_def ac_simps)
  have dist: "distinct (?pend d' @ freed d' @ map snd (delivered d'))
                  \<and> distinct (freed (flushBuffers d') @ map snd (delivered (flushBuffers d')))
                  \<and> (\<forall>p\<in>set rd. (p \<in> set (freed (flushBuffers d')))
                                   \<noteq> (p \<in> snd ` set (delivered (flushBuffers d'))))"
    if d0: "distinct (unread d @ ?pend d @ freed d @ map snd (delivered d))"
  proof -
    from cons have "mset (unread d' @ ?pend d' @ freed d' @ map snd (delivered d'))
        = mset (unread d @ ?pend d @ freed d @ map snd (delivered d))"
      by (simp add: accounted_def ac_simps)
    from mset_eq_imp_distinct_iff[OF this] d0
    have d1: "distinct (unread d' @ ?pend d' @ freed d' @ map snd (delivered d'))" by simp
    then have a: "distinct (?pend d' @ freed d' @ map snd (delivered d'))" by simp
    have "mset (freed (flushBuffers d') @ map snd (delivered (flushBuffers d')))
        = mset (?pend d' @ freed d' @ map snd (delivered d'))"
      by (simp add: fl)
    from mset_eq_imp_distinct_iff[OF this] a
    have b: "distinct (freed (flushBuffers d') @ map snd (delivered (flushBuffers d')))" by simp
    have c: "(p \<in> set (freed (flushBuffers d'))) \<noteq> (p \<in> snd ` set (delivered (flushBuffers d')))"
      if "p \<in> set rd" for p
    proof -
      from that have "p \<in># mset rd + accounted d" by simp
      with tot have "p \<in># mset (freed (flushBuffers d')) + mset (map snd (delivered (flushBuffers d')))"
        by simp
      then have "p \<in> set (freed (flushBuffers d')) \<or> p \<in> snd ` set (delivered (flushBuffers d'))"
        by auto
      moreover from b have "\<not> (p \<in> set (freed (flushBuffers d'))
                               \<and> p \<in> snd ` set (delivered (flushBuffers d')))"
        by auto
      ultimately show ?thesis by blast
    qed
    from a b c show ?thesis by blast
  qed
  from rd acc fl tot dist have B: "\<exists>rd. unread d = rd @ unread d'
           \<and> accounted d' = mset rd + accounted d
           \<and> ?pend (flushBuffers d') = []
           \<and> freed (flushBuffers d') = freed d' @ ?pend d'
           \<and> delivered (flushBuffers d') = delivered d'
           \<and> mset (freed (flushBuffers d')) + mset (map snd (delivered (flushBuffers d')))
               = mset rd + accounted d
           \<and> (distinct (unread d @ ?pend d @ freed d @ map snd (delivered d))
                \<longrightarrow> distinct (?pend d' @ freed d' @ map snd (delivered d'))
                  \<and> distinct (freed (flushBuffers d') @ map snd (delivered (flushBuffers d')))
                  \<and> (\<forall>p\<in>set rd. (p \<in> set (freed (flushBuffers d')))
                                   \<noteq> (p \<in> snd ` set (delivered (flushBuffers d')))))"
    by blast
  from A1 A2 A3 B show ?thesis by (intro conjI)
qed

theorem C3_witness:
  "fold perform [Round 2, Round 1, Round 1] (two_streams [packet 101 0, packet 102 1] [])
     = feedBody 1 (feedBody 1 (feedBody 2 (two_streams [packet 101 0, packet 102 1] [])))
   \<and> m_pendingDataForActiveStreams (feedBody 2 (two_streams [packet 101 0, packet 102 1] []))
       = [packet 101 0]
   \<and> delivered (feedBody 1 (feedBody 2 (two_streams [packet 101 0, packet 102 1] [])))
       = [(1, packet 101 0)]
   \<and> m_pendingDataForActiveStreams
        (feedBody 1 (feedBody 2 (two_streams [packet 101 0, packet 102 1] []))) = []
   \<and> freed (feedBody 1 (feedBody 1 (feedBody 2 (two_streams [packet 101 0, packet 102 1] []))))
       = [packet 102 1]
   \<and> feedBody 1 (two_streams [] []) = (two_streams [] [])\<lparr>m_eofReached := True\<rparr>
   \<and> distinct (unread (two_streams [packet 101 0, packet 102 1] [])
                @ m_pendingDataForActiveStreams (two_streams [packet 101 0, packet 102 1] [])
                @ freed (two_streams [packet 101 0, packet 102 1] [])
                @ map snd (delivered (two_streams [packet 101 0, packet 102 1] [])))
   \<and> (\<exists>rd. unread (two_streams [packet 101 0, packet 102 1] [])
             = rd @ unread (fold perform [Round 2, Round 1, Round 1]
                              (two_streams [packet 101 0, packet 102 1] []))
         \<and> (\<forall>p\<in>set rd.
               (p \<in> set (freed (flushBuffers (fold perform [Round 2, Round 1, Round 1]
                                    (two_streams [packet 101 0, packet 102 1] [])))))
               \<noteq> (p \<in> snd ` set (delivered (flushBuffers (fold perform [Round 2, Round 1, Round 1]
                                    (two_streams [packet 101 0, packet 102 1] [])))))))"
proof -
  let ?d0 = "two_streams [packet 101 0, packet 102 1] []"
  let ?d1 = "feedBody 2 ?d0"
  let ?d2 = "feedBody 1 ?d1"
  let ?d3 = "feedBody 1 ?d2"
  let ?ops = "[Round 2, Round 1, Round 1]"
  note c = C3_packets_delivered_or_freed[of needs_two "[]" ?d0 "fold perform ?ops ?d0" ?ops,
      OF disjI2[OF refl]]
  note A1 = c[THEN conjunct1, rule_format]
  note A2 = c[THEN conjunct2, THEN conjunct1, rule_format]
  note A3 = c[THEN conjunct2, THEN conjunct2, THEN conjunct1, rule_format]
  note B0 = c[THEN conjunct2, THEN conjunct2, THEN conjunct2]
  have f: "fold perform ?ops ?d0 = ?d3" by simp
  \<comment> \<open>the first round, for B, reads the packet for A and queues it\<close>
  have h0: "(\<forall>q\<in>set (m_pendingDataForActiveStreams ?d0). \<not> canUsePacket (objects ?d0 2) q)
      \<and> unread ?d0 = packet 101 0 # [packet 102 1]"
    by (simp add: scenario_simps unread_def)
  let ?x0 = "?d0\<lparr>m_formatCtx := (m_formatCtx ?d0)\<lparr>ctx_packets := [packet 102 1]\<rparr>\<rparr>"
  from A2[OF h0] have "dispatched_by_rule 2 (packet 101 0) ?x0 ?d1" .
  then have r1: "m_pendingDataForActiveStreams ?d1 = [packet 101 0]" "delivered ?d1 = []"
    "freed ?d1 = []" "unread ?d1 = [packet 102 1]"
    by (simp_all add: dispatched_by_rule_def scenario_simps getSelectedVideoStream_def
        isPassive_def unread_def)
  have at: "m_streams ?d1 = m_streams ?d0" "m_connectedVideoStream ?d1 = Some 1"
    "m_streamIndex (objects ?d1 1) = 0" "m_passive (objects ?d1 1) = False"
    using feedBody_same_attributes[of ?d0 2]
    by (simp_all add: same_attributes_def scenario_simps)
  \<comment> \<open>the second round, for A, takes it from the queue and delivers it\<close>
  from r1(1) at(3) have h1: "m_pendingDataForActiveStreams ?d1 = [] @ packet 101 0 # []
      \<and> (\<forall>q\<in>set []. \<not> canUsePacket (objects ?d1 1) q)
      \<and> canUsePacket (objects ?d1 1) (packet 101 0)"
    by (simp add: canUsePacket_def packet_def)
  let ?x1 = "?d1\<lparr>m_pendingDataForActiveStreams := [] @ []\<rparr>"
  from A1[OF h1] have "dispatched_by_rule 1 (packet 101 0) ?x1 ?d2" .
  with r1 at have r2: "delivered ?d2 = [(1, packet 101 0)]"
    "m_pendingDataForActiveStreams ?d2 = []" "freed ?d2 = []" "unread ?d2 = [packet 102 1]"
    by (simp_all add: dispatched_by_rule_def scenario_simps getSelectedVideoStream_def
        isPassive_def unread_def)
  have at2: "m_streams ?d2 = m_streams ?d0" "m_connectedVideoStream ?d2 = Some 1"
    using feedBody_same_attributes[of ?d1 1] at by (simp_all add: same_attributes_def)
  \<comment> \<open>the third round, for A, reads the packet for B and frees it\<close>
  from r2 have h2: "(\<forall>q\<in>set (m_pendingDataForActiveStreams ?d2). \<not> canUsePacket (objects ?d2 1) q)
      \<and> unread ?d2 = packet 102 1 # []"
    by simp
  let ?x2 = "?d2\<lparr>m_formatCtx := (m_formatCtx ?d2)\<lparr>ctx_packets := []\<rparr>\<rparr>"
  from A2[OF h2] have "dispatched_by_rule 1 (packet 102 1) ?x2 ?d3" .
  with r2 at2 have r3: "freed ?d3 = [packet 102 1]"
    by (simp add: dispatched_by_rule_def scenario_simps getSelectedVideoStream_def)
  \<comment> \<open>a round without a packet\<close>
  have he: "(\<forall>q\<in>set (m_pendingDataForActiveStreams (two_streams [] [])).
               \<not> canUsePacket (objects (two_streams [] []) 1) q)
      \<and> unread (two_streams [] []) = []"
    by (simp add: scenario_simps unread_def)
  from A3[OF he]
  have e: "feedBody 1 (two_streams [] []) = (two_streams [] [])\<lparr>m_eofReached := True\<rparr>" .
  have dis: "distinct (unread ?d0 @ m_pendingDataForActiveStreams ?d0 @ freed ?d0
                       @ map snd (delivered ?d0))"
    by (simp add: scenario_simps unread_def)
  with B0 obtain rd where "unread ?d0 = rd @ unread (fold perform ?ops ?d0)"
    "\<forall>p\<in>set rd. (p \<in> set (freed (flushBuffers (fold perform ?ops ?d0))))
                   \<noteq> (p \<in> snd ` set (delivered (flushBuffers (fold perform ?ops ?d0))))"
    by blast
  then have B: "\<exists>rd. unread ?d0 = rd @ unread (fold perform ?ops ?d0)
         \<and> (\<forall>p\<in>set rd. (p \<in> set (freed (flushBuffers (fold perform ?ops ?d0))))
                   \<noteq> (p \<in> snd ` set (delivered (flushBuffers (fold perform ?ops ?d0)))))"
    by blast
  from f r1(1) r2(1,2) r3 e dis B show ?thesis by (intro conjI)
qed

text \<open>
  The claim as it was stated fails in its clause on queued packets. B requests
  and the packet read for the selected stream A is queued; the selection moves
  to B; A requests, the round takes the packet from the queue,
  \<open>distributePacket\<close> rejects it, and the loop frees it: it is neither delivered
  nor freed by a flush.
\<close>

theorem C3_counterexample:
  "m_pendingDataForActiveStreams (feedBody 2 (two_streams [packet 101 0] [])) = [packet 101 0]
   \<and> fst (selectVideoStream (Some 2) (feedBody 2 (two_streams [packet 101 0] []))) = None
   \<and> getSelectedVideoStream
        (snd (selectVideoStream (Some 2) (feedBody 2 (two_streams [packet 101 0] [])))) = Some 2
   \<and> m_pendingDataForActiveStreams
        (snd (selectVideoStream (Some 2) (feedBody 2 (two_streams [packet 101 0] []))))
       = [packet 101 0]
   \<and> freed (snd (selectVideoStream (Some 2) (feedBody 2 (two_streams [packet 101 0] [])))) = []
   \<and> \<not> didReachEndOfFile
        (snd (selectVideoStream (Some 2) (feedBody 2 (two_streams [packet 101 0] []))))
   \<and> canUsePacket
        (objects (snd (selectVideoStream (Some 2) (feedBody 2 (two_streams [packet 101 0] [])))) 1)
        (packet 101 0)
   \<and> m_pendingDataForActiveStreams
        (feedBody 1 (snd (selectVideoStream (Some 2) (feedBody 2 (two_streams [packet 101 0] [])))))
       = []
   \<and> freed
        (feedBody 1 (snd (selectVideoStream (Some 2) (feedBody 2 (two_streams [packet 101 0] [])))))
       = [packet 101 0]
   \<and> delivered
        (feedBody 1 (snd (selectVideoStream (Some 2) (feedBody 2 (two_streams [packet 101 0] [])))))
       = []"
  by (simp add: feed_simps scenario_simps selectVideoStream_def connect_def disconnect_def)

text \<open>
  C4. After a seek notification the Pending Packet Queue is empty, every packet
  that was queued has been freed, and the end-of-file flag is false, whatever
  the state before and whatever \<^verbatim>\<open>avformat_seek_file\<close> returns.
\<close>

theorem C4_seek_empties_queue_and_clears_eof:
  "m_pendingDataForActiveStreams (willSeek seek_file position d) = []
   \<and> \<not> didReachEndOfFile (willSeek seek_file position d)
   \<and> freed (willSeek seek_file position d) = freed d @ m_pendingDataForActiveStreams d"
  by (simp add: willSeek_def Let_def flushBuffers_def resetEndOfFileStatus_def
      sfeLogError_def didReachEndOfFile_def split: prod.splits option.splits)

theorem C4_witness:
  "m_pendingDataForActiveStreams
      (willSeek failing_seek 0
         ((two_streams [] [packet 100 0, packet 101 1])\<lparr>m_eofReached := True\<rparr>)) = []
   \<and> \<not> didReachEndOfFile
      (willSeek failing_seek 0
         ((two_streams [] [packet 100 0, packet 101 1])\<lparr>m_eofReached := True\<rparr>))
   \<and> freed
      (willSeek failing_seek 0
         ((two_streams [] [packet 100 0, packet 101 1])\<lparr>m_eofReached := True\<rparr>))
      = [packet 100 0, packet 101 1]
   \<and> didReachEndOfFile ((two_streams [] [packet 100 0, packet 101 1])\<lparr>m_eofReached := True\<rparr>)"
  using C4_seek_empties_queue_and_clears_eof
    [of failing_seek 0 "(two_streams [] [packet 100 0, packet 101 1])\<lparr>m_eofReached := True\<rparr>"]
  by (simp add: two_streams_def didReachEndOfFile_def)

text \<open>
  C5. Over any sequence of feed calls, and over any number of rounds of the
  loop for any requesters, every packet pushed to a stream is pushed to the
  stream that the table holds under the packet's identifier, and that stream is
  the selected one: a packet whose destination is not the selected stream is
  pushed to no stream, and the packet list of every stream object grows by
  exactly the packets pushed to it.
\<close>

theorem C5_unselected_never_delivered:
  assumes "feedCalls needsMoreData streams d = Some d' \<or> d' = fold feedBody rounds d"
  shows "\<exists>new. delivered d' = delivered d @ new
           \<and> (\<forall>a. m_packetList (objects d' a) = m_packetList (objects d a) @ received_by a new)
           \<and> (\<forall>(t, p)\<in>set new. map_of (m_streams d) (stream_index p) = Some t
                                  \<and> getSelectedVideoStream d = Some t)
           \<and> (\<forall>p. map_of (m_streams d) (stream_index p) \<noteq> getSelectedVideoStream d
                    \<or> getSelectedVideoStream d = None
                  \<longrightarrow> p \<notin> snd ` set new \<and> (\<forall>a. p \<notin> set (received_by a new)))
           \<and> getSelectedVideoStream d' = getSelectedVideoStream d
           \<and> m_streams d' = m_streams d"
proof -
  from feed_rel_run[OF assms] obtain new where
    n: "delivered d' = delivered d @ new"
       "\<forall>(t, p)\<in>set new. map_of (m_streams d) (stream_index p) = Some t
                           \<and> m_connectedVideoStream d = Some t"
    and sa: "same_attributes d d'"
    by (auto simp: feed_rel_def)
  from log_rel_run[OF assms] n(1)
  have l: "\<forall>a. m_packetList (objects d' a) = m_packetList (objects d a) @ received_by a new"
    by (auto simp: log_rel_def)
  from n(2) have u: "\<forall>p. map_of (m_streams d) (stream_index p) \<noteq> getSelectedVideoStream d
                    \<or> getSelectedVideoStream d = None
                  \<longrightarrow> p \<notin> snd ` set new"
    by (auto simp: getSelectedVideoStream_def)
  have "set (received_by a new) \<subseteq> snd ` set new" for a
    by (auto simp: received_by_def)
  with u have "\<forall>p. map_of (m_streams d) (stream_index p) \<noteq> getSelectedVideoStream d
                    \<or> getSelectedVideoStream d = None
                  \<longrightarrow> p \<notin> snd ` set new \<and> (\<forall>a. p \<notin> set (received_by a new))"
    by blast
  with n sa l show ?thesis
    by (intro exI[of _ new]) (simp add: getSelectedVideoStream_def same_attributes_def)
qed

theorem C5_witness:
  "\<exists>d'. feedCalls needs_two [1, 2] (two_streams scenario_packets []) = Some d'
      \<and> delivered d' = [(1, packet 101 0), (1, packet 103 0)]
      \<and> m_packetList (objects d' 1) = [packet 101 0, packet 103 0]
      \<and> m_packetList (objects d' 2) = []
      \<and> (\<exists>new. delivered d' = delivered (two_streams scenario_packets []) @ new
           \<and> (\<forall>(t, p)\<in>set new.
                 map_of (m_streams (two_streams scenario_packets [])) (stream_index p) = Some t
                 \<and> getSelectedVideoStream (two_streams scenario_packets []) = Some t)
           \<and> packet 100 1 \<notin> snd ` set new \<and> packet 102 1 \<notin> snd ` set new)"
proof -
  let ?d = "two_streams scenario_packets []"
  have "map_option delivered (feedCalls needs_two [1, 2] ?d)
      = Some [(1, packet 101 0), (1, packet 103 0)]"
    by (simp add: feed_simps scenario_simps)
  then obtain d' where r: "feedCalls needs_two [1, 2] ?d = Some d'"
    and dl: "delivered d' = [(1, packet 101 0), (1, packet 103 0)]" by auto
  from C5_unselected_never_delivered[OF disjI1[OF r]] obtain new where
    n: "delivered d' = delivered ?d @ new"
      "\<forall>a. m_packetList (objects d' a) = m_packetList (objects ?d a) @ received_by a new"
      "\<forall>(t, p)\<in>set new. map_of (m_streams ?d) (stream_index p) = Some t
                          \<and> getSelectedVideoStream ?d = Some t"
      "\<forall>p. map_of (m_streams ?d) (stream_index p) \<noteq> getSelectedVideoStream ?d
                    \<or> getSelectedVideoStream ?d = None
                  \<longrightarrow> p \<notin> snd ` set new \<and> (\<forall>a. p \<notin> set (received_by a new))"
    by blast
  from n(1) dl have new: "new = [(1, packet 101 0), (1, packet 103 0)]"
    by (simp add: two_streams_def)
  from n(2) new have pl: "m_packetList (objects d' 1) = [packet 101 0, packet 103 0]"
    "m_packetList (objects d' 2) = []"
    by (simp_all add: received_by_def scenario_simps)
  have "map_of (m_streams ?d) (stream_index (packet 100 1)) \<noteq> getSelectedVideoStream ?d"
    "map_of (m_streams ?d) (stream_index (packet 102 1)) \<noteq> getSelectedVideoStream ?d"
    by (simp_all add: scenario_simps getSelectedVideoStream_def)
  with n(4) have "packet 100 1 \<notin> snd ` set new \<and> packet 102 1 \<notin> snd ` set new" by blast
  with r dl pl n(1,3) show ?thesis by blast
qed

text \<open>
  C6. While the timer reports Playing or Paused, \<open>selectVideoStream\<close> throws and
  leaves the demultiplexer as it was. While it reports Stopped, the call
  returns, the selected stream is the argument, and, when the argument differs
  from the stream selected before, that one is disconnected, the new one is
  connected, and no other stream object changes.
\<close>

theorem C6_selection_only_while_stopped:
  "(m_timer d = Playing \<or> m_timer d = Paused
      \<longrightarrow> (\<exists>msg. selectVideoStream stream d = (Some (runtime_error msg), d)))
   \<and> (m_timer d = Stopped
      \<longrightarrow> fst (selectVideoStream stream d) = None
        \<and> m_connectedVideoStream (snd (selectVideoStream stream d)) = stream
        \<and> m_timer (snd (selectVideoStream stream d)) = Stopped
        \<and> (stream = m_connectedVideoStream d \<longrightarrow> snd (selectVideoStream stream d) = d)
        \<and> (stream \<noteq> m_connectedVideoStream d
             \<longrightarrow> (\<forall>old. m_connectedVideoStream d = Some old
                     \<longrightarrow> \<not> m_connected (objects (snd (selectVideoStream stream d)) old))
               \<and> (\<forall>new. stream = Some new
                     \<longrightarrow> m_connected (objects (snd (selectVideoStream stream d)) new))
               \<and> (\<forall>a. Some a \<noteq> m_connectedVideoStream d \<and> Some a \<noteq> stream
                     \<longrightarrow> objects (snd (selectVideoStream stream d)) a = objects d a)))"
  by (auto simp: selectVideoStream_def Let_def connect_def disconnect_def timer_pause_def
      timer_play_def split: option.splits)

theorem C6_witness:
  "(\<exists>msg. selectVideoStream (Some 2) ((two_streams [] [])\<lparr>m_timer := Playing\<rparr>)
            = (Some (runtime_error msg), (two_streams [] [])\<lparr>m_timer := Playing\<rparr>))
   \<and> (\<exists>msg. selectVideoStream (Some 2) ((two_streams [] [])\<lparr>m_timer := Paused\<rparr>)
            = (Some (runtime_error msg), (two_streams [] [])\<lparr>m_timer := Paused\<rparr>))
   \<and> m_timer (two_streams [] []) = Stopped
   \<and> m_connectedVideoStream (two_streams [] []) = Some 1
   \<and> m_connected (objects (two_streams [] []) 1)
   \<and> fst (selectVideoStream (Some 2) (two_streams [] [])) = None
   \<and> m_connectedVideoStream (snd (selectVideoStream (Some 2) (two_streams [] []))) = Some 2
   \<and> \<not> m_connected (objects (snd (selectVideoStream (Some 2) (two_streams [] []))) 1)
   \<and> m_connected (objects (snd (selectVideoStream (Some 2) (two_streams [] []))) 2)"
  using C6_selection_only_while_stopped[of "(two_streams [] [])\<lparr>m_timer := Playing\<rparr>" "Some 2"]
    C6_selection_only_while_stopped[of "(two_streams [] [])\<lparr>m_timer := Paused\<rparr>" "Some 2"]
    C6_selection_only_while_stopped[of "two_streams [] []" "Some 2"]
  by (simp add: scenario_simps)

text \<open>
  C7, as amended. One video stream that fails to initialise is caught and
  logged and does not abort construction: construction fails on an empty source
  name, a null timer, a failing \<^verbatim>\<open>avformat_open_input\<close> (or a null context) or a
  failing \<^verbatim>\<open>avformat_find_stream_info\<close>, and succeeds when none of these holds
  and the media type of every container stream has a name, whichever video
  streams fail to initialise. When construction succeeds and the container
  identifiers are unique, a video stream that failed is absent from the Stream
  Table and its error is logged, every video stream that initialises has its
  entry under its identifier, every stream of another kind has its entry in the
  Ignored-Stream Table, and no other identifier has an entry.
\<close>

theorem C7_construction_tolerates_stream_failures:
  "(sourceFile = [] \<or> timer = None \<or> fst (avformat_open_input env) \<noteq> 0
      \<or> snd (avformat_open_input env) = None \<or> avformat_find_stream_info env \<noteq> 0
    \<longrightarrow> (\<exists>e. Demuxer_ctor env sourceFile timer = Inl e))
   \<and> (\<forall>ctx. sourceFile \<noteq> [] \<and> timer \<noteq> None \<and> avformat_open_input env = (0, Some ctx)
          \<and> avformat_find_stream_info env = 0 \<and> (\<forall>ff\<in>set (ctx_streams ctx). named ff)
        \<longrightarrow> (\<exists>d. Demuxer_ctor env sourceFile timer = Inr d))
   \<and> (\<forall>ctx d. Demuxer_ctor env sourceFile timer = Inr d
          \<and> snd (avformat_open_input env) = Some ctx
          \<and> distinct (map st_index (ctx_streams ctx))
        \<longrightarrow> (\<forall>ff\<in>set (ctx_streams ctx).
               (st_codec_type ff = AVMEDIA_TYPE_VIDEO
                  \<longrightarrow> (\<forall>a obj. make_shared_VideoStream env ff = Inr (a, obj)
                         \<longrightarrow> map_of (m_streams d) (st_index ff) = Some a)
                    \<and> (\<forall>what. make_shared_VideoStream env ff = Inl what
                         \<longrightarrow> map_of (m_streams d) (st_index ff) = None
                           \<and> (\<exists>n. stream_name env ff = Inr n
                                 \<and> StreamLoadError (n @ [CHR 0x27]) what \<in> set (errlog d)))
                    \<and> map_of (m_ignoredStreams d) (st_index ff) = None)
             \<and> (st_codec_type ff \<noteq> AVMEDIA_TYPE_VIDEO
                  \<longrightarrow> (\<exists>n. stream_name env ff = Inr n
                         \<and> map_of (m_ignoredStreams d) (st_index ff) = Some n)
                    \<and> map_of (m_streams d) (st_index ff) = None))
          \<and> (\<forall>k. k \<notin> st_index ` set (ctx_streams ctx)
                \<longrightarrow> map_of (m_streams d) k = None \<and> map_of (m_ignoredStreams d) k = None))"
proof (intro conjI allI impI)
  assume "sourceFile = [] \<or> timer = None \<or> fst (avformat_open_input env) \<noteq> 0
      \<or> snd (avformat_open_input env) = None \<or> avformat_find_stream_info env \<noteq> 0"
  then show "\<exists>e. Demuxer_ctor env sourceFile timer = Inl e" by (rule Demuxer_ctor_fails)
next
  fix ctx
  assume "sourceFile \<noteq> [] \<and> timer \<noteq> None \<and> avformat_open_input env = (0, Some ctx)
          \<and> avformat_find_stream_info env = 0 \<and> (\<forall>ff\<in>set (ctx_streams ctx). named ff)"
  then show "\<exists>d. Demuxer_ctor env sourceFile timer = Inr d"
    by (simp add: Demuxer_ctor_succeeds)
next
  fix ctx d
  assume a: "Demuxer_ctor env sourceFile timer = Inr d
          \<and> snd (avformat_open_input env) = Some ctx
          \<and> distinct (map st_index (ctx_streams ctx))"
  then obtain tm where "Demuxer_load env ctx tm = Inr d" by (blast elim: Demuxer_ctor_Inr)
  then obtain d2 where f: "findStreams env (ctx_streams ctx) (Demuxer_start env ctx tm) = Inr d2"
    and tb: "m_streams d = m_streams d2" "m_ignoredStreams d = m_ignoredStreams d2"
      "set (errlog d2) \<subseteq> set (errlog d)"
    by (rule Demuxer_load_Inr)
  from a have dis: "distinct (map st_index (ctx_streams ctx))" by simp
  show "\<forall>ff\<in>set (ctx_streams ctx).
               (st_codec_type ff = AVMEDIA_TYPE_VIDEO
                  \<longrightarrow> (\<forall>a obj. make_shared_VideoStream env ff = Inr (a, obj)
                         \<longrightarrow> map_of (m_streams d) (st_index ff) = Some a)
                    \<and> (\<forall>what. make_shared_VideoStream env ff = Inl what
                         \<longrightarrow> map_of (m_streams d) (st_index ff) = None
                           \<and> (\<exists>n. stream_name env ff = Inr n
                                 \<and> StreamLoadError (n @ [CHR 0x27]) what \<in> set (errlog d)))
                    \<and> map_of (m_ignoredStreams d) (st_index ff) = None)
             \<and> (st_codec_type ff \<noteq> AVMEDIA_TYPE_VIDEO
                  \<longrightarrow> (\<exists>n. stream_name env ff = Inr n
                         \<and> map_of (m_ignoredStreams d) (st_index ff) = Some n)
                    \<and> map_of (m_streams d) (st_index ff) = None)"
  proof
    fix ff
    assume ff: "ff \<in> set (ctx_streams ctx)"
    note e = findStreams_stream_entry[OF dis ff f Demuxer_start_empty(1,2)]
    from e(4) obtain n where n: "stream_name env ff = Inr n"
      using stream_name_named[of env ff] by blast
    from e(1,2) n have 1: "map_of (m_streams d) (st_index ff) =
           (if st_codec_type ff = AVMEDIA_TYPE_VIDEO
            then (case make_shared_VideoStream env ff of Inl _ \<Rightarrow> None | Inr r \<Rightarrow> Some (fst r))
            else None)"
      and 2: "map_of (m_ignoredStreams d) (st_index ff) =
           (if st_codec_type ff = AVMEDIA_TYPE_VIDEO then None else Some n)"
      by (simp_all add: tb(1,2))
    have 3: "\<exists>n. stream_name env ff = Inr n
               \<and> StreamLoadError (n @ [CHR 0x27]) what \<in> set (errlog d)"
      if v: "st_codec_type ff = AVMEDIA_TYPE_VIDEO" "make_shared_VideoStream env ff = Inl what"
      for what
    proof -
      from v(1) have "stream_name env ff = Inr (CHR 0x27 # ''video/'' @ avcodec_get_name env ff)"
        by (simp add: stream_name_def)
      moreover from e(3)[OF v] tb(3)
      have "StreamLoadError ((CHR 0x27 # ''video/'' @ avcodec_get_name env ff) @ [CHR 0x27]) what
          \<in> set (errlog d)" by auto
      ultimately show ?thesis by blast
    qed
    from 1 2 3 n show "(st_codec_type ff = AVMEDIA_TYPE_VIDEO
                  \<longrightarrow> (\<forall>a obj. make_shared_VideoStream env ff = Inr (a, obj)
                         \<longrightarrow> map_of (m_streams d) (st_index ff) = Some a)
                    \<and> (\<forall>what. make_shared_VideoStream env ff = Inl what
                         \<longrightarrow> map_of (m_streams d) (st_index ff) = None
                           \<and> (\<exists>n. stream_name env ff = Inr n
                                 \<and> StreamLoadError (n @ [CHR 0x27]) what \<in> set (errlog d)))
                    \<and> map_of (m_ignoredStreams d) (st_index ff) = None)
             \<and> (st_codec_type ff \<noteq> AVMEDIA_TYPE_VIDEO
                  \<longrightarrow> (\<exists>n. stream_name env ff = Inr n
                         \<and> map_of (m_ignoredStreams d) (st_index ff) = Some n)
                    \<and> map_of (m_streams d) (st_index ff) = None)"
      by simp
  qed
  fix k
  assume "k \<notin> st_index ` set (ctx_streams ctx)"
  with f show "map_of (m_streams d) k = None" "map_of (m_ignoredStreams d) k = None"
    by (simp_all add: tb(1,2) findStreams_streams_other findStreams_ignored_other
        Demuxer_start_empty)
qed

theorem C7_witness:
  "Demuxer_ctor mixed_env [] (Some Stopped)
     = Inl (runtime_error ''Demuxer::Demuxer() - invalid argument: sourceFile'')
   \<and> (\<exists>d. Demuxer_ctor mixed_env ''movie.ogv'' (Some Stopped) = Inr d
      \<and> distinct (map st_index (ctx_streams mixed_container))
      \<and> map_of (m_streams d) 0 = Some 10
      \<and> map_of (m_ignoredStreams d) 1 = Some (CHR 0x27 # ''audio/vorbis'')
      \<and> map_of (m_streams d) 1 = None
      \<and> map_of (m_streams d) 2 = None
      \<and> StreamLoadError (CHR 0x27 # ''video/theora'' @ [CHR 0x27]) ''unsupported codec''
           \<in> set (errlog d)
      \<and> map_of (m_streams d) 3 = Some 13
      \<and> map_of (m_streams d) 4 = None)"
proof -
  note c = C7_construction_tolerates_stream_failures[of "''movie.ogv''" "Some Stopped" mixed_env]
  note c0 = C7_construction_tolerates_stream_failures[of "[]" "Some Stopped" mixed_env]
  from c0 obtain e where "Demuxer_ctor mixed_env [] (Some Stopped) = Inl e" by blast
  then have z: "Demuxer_ctor mixed_env [] (Some Stopped)
     = Inl (runtime_error ''Demuxer::Demuxer() - invalid argument: sourceFile'')"
    by (simp add: Demuxer_ctor_def)
  have o: "avformat_open_input mixed_env = (0, Some mixed_container)"
    "avformat_find_stream_info mixed_env = 0"
    "\<forall>ff\<in>set (ctx_streams mixed_container). named ff"
    by (simp_all add: env_simps mixed_env_def mixed_container_def named_def)
  with c obtain d where r: "Demuxer_ctor mixed_env ''movie.ogv'' (Some Stopped) = Inr d"
    by auto
  have os: "snd (avformat_open_input mixed_env) = Some mixed_container" by (simp add: o(1))
  have dis: "distinct (map st_index (ctx_streams mixed_container))"
    by (simp add: env_simps mixed_env_def mixed_container_def)
  have mem: "ffstream 0 AVMEDIA_TYPE_VIDEO None \<in> set (ctx_streams mixed_container)"
    "ffstream 1 AVMEDIA_TYPE_AUDIO None \<in> set (ctx_streams mixed_container)"
    "ffstream 2 AVMEDIA_TYPE_VIDEO None \<in> set (ctx_streams mixed_container)"
    "ffstream 3 AVMEDIA_TYPE_VIDEO None \<in> set (ctx_streams mixed_container)"
    "4 \<notin> st_index ` set (ctx_streams mixed_container)"
    by (simp_all add: env_simps mixed_env_def mixed_container_def)
  have mk: "make_shared_VideoStream mixed_env (ffstream 0 AVMEDIA_TYPE_VIDEO None)
              = Inr (10, video_stream 0)"
    "make_shared_VideoStream mixed_env (ffstream 2 AVMEDIA_TYPE_VIDEO None)
              = Inl ''unsupported codec''"
    "make_shared_VideoStream mixed_env (ffstream 3 AVMEDIA_TYPE_VIDEO None)
              = Inr (13, video_stream 3)"
    by (simp_all add: mixed_env_def test_env_def allocate_def ffstream_def)
  have nm: "stream_name mixed_env (ffstream 1 AVMEDIA_TYPE_AUDIO None)
              = Inr (CHR 0x27 # ''audio/vorbis'')"
    "stream_name mixed_env (ffstream 2 AVMEDIA_TYPE_VIDEO None)
              = Inr (CHR 0x27 # ''video/theora'')"
    by (simp_all add: stream_name_def mixed_env_def test_env_def codec_name_def ffstream_def)
  have ix: "st_index (ffstream 0 AVMEDIA_TYPE_VIDEO None) = 0"
    "st_index (ffstream 1 AVMEDIA_TYPE_AUDIO None) = 1"
    "st_index (ffstream 2 AVMEDIA_TYPE_VIDEO None) = 2"
    "st_index (ffstream 3 AVMEDIA_TYPE_VIDEO None) = 3"
    "st_codec_type (ffstream 0 AVMEDIA_TYPE_VIDEO None) = AVMEDIA_TYPE_VIDEO"
    "st_codec_type (ffstream 1 AVMEDIA_TYPE_AUDIO None) \<noteq> AVMEDIA_TYPE_VIDEO"
    "st_codec_type (ffstream 2 AVMEDIA_TYPE_VIDEO None) = AVMEDIA_TYPE_VIDEO"
    "st_codec_type (ffstream 3 AVMEDIA_TYPE_VIDEO None) = AVMEDIA_TYPE_VIDEO"
    by (simp_all add: ffstream_def)
  from c r os dis have
    all: "\<forall>ff\<in>set (ctx_streams mixed_container).
               (st_codec_type ff = AVMEDIA_TYPE_VIDEO
                  \<longrightarrow> (\<forall>a obj. make_shared_VideoStream mixed_env ff = Inr (a, obj)
                         \<longrightarrow> map_of (m_streams d) (st_index ff) = Some a)
                    \<and> (\<forall>what. make_shared_VideoStream mixed_env ff = Inl what
                         \<longrightarrow> map_of (m_streams d) (st_index ff) = None
                           \<and> (\<exists>n. stream_name mixed_env ff = Inr n
                                 \<and> StreamLoadError (n @ [CHR 0x27]) what \<in> set (errlog d)))
                    \<and> map_of (m_ignoredStreams d) (st_index ff) = None)
             \<and> (st_codec_type ff \<noteq> AVMEDIA_TYPE_VIDEO
                  \<longrightarrow> (\<exists>n. stream_name mixed_env ff = Inr n
                         \<and> map_of (m_ignoredStreams d) (st_index ff) = Some n)
                    \<and> map_of (m_streams d) (st_index ff) = None)"
    and none: "\<forall>k. k \<notin> st_index ` set (ctx_streams mixed_container)
                \<longrightarrow> map_of (m_streams d) k = None \<and> map_of (m_ignoredStreams d) k = None"
    by blast+
  from all[rule_format, OF mem(1)] mk(1) ix have 0: "map_of (m_streams d) 0 = Some 10" by simp
  from all[rule_format, OF mem(2)] ix nm(1) have 1:
    "map_of (m_ignoredStreams d) 1 = Some (CHR 0x27 # ''audio/vorbis'')"
    "map_of (m_streams d) 1 = None" by auto
  from all[rule_format, OF mem(3)] mk(2) ix nm(2) have 2: "map_of (m_streams d) 2 = None"
    "StreamLoadError (CHR 0x27 # ''video/theora'' @ [CHR 0x27]) ''unsupported codec''
       \<in> set (errlog d)" by auto
  from all[rule_format, OF mem(4)] mk(3) ix have 3: "map_of (m_streams d) 3 = Some 13" by simp
  from none mem(5) have 4: "map_of (m_streams d) 4 = None" by blast
  from z r dis 0 1 2 3 4 show ?thesis by blast
qed

text \<open>
  The claim as it was stated fails in its last part: with a container that
  opens and probes without error, a null timer, or an empty source name, makes
  the constructor throw.
\<close>

theorem C7_counterexample:
  "fst (avformat_open_input mixed_env) = 0
   \<and> snd (avformat_open_input mixed_env) = Some mixed_container
   \<and> avformat_find_stream_info mixed_env = 0
   \<and> Demuxer_ctor mixed_env ''movie.ogv'' None
       = Inl (runtime_error ''Inconsistency error: null timer'')
   \<and> Demuxer_ctor mixed_env [] (Some Stopped)
       = Inl (runtime_error ''Demuxer::Demuxer() - invalid argument: sourceFile'')"
  by (simp add: Demuxer_ctor_def mixed_env_def test_env_def)

text \<open>
  C8, as amended. \<open>getDuration\<close> returns the duration resolved from the
  container's metadata when it is present and resolves to a time that is not
  zero. Otherwise it returns the duration resolved from the first stream, in
  container order, that is a video stream, initialises, and has a duration that
  resolves to a time that is not zero; and zero when there is no such stream.
  No feed call, seek, selection or flush changes the value.
\<close>

theorem C8_duration_resolution:
  assumes "Demuxer_ctor env sourceFile timer = Inr d"
    and "snd (avformat_open_input env) = Some ctx"
  shows "(\<forall>dur. ctx_duration ctx = Some dur \<and> resolve env dur \<noteq> 0
            \<longrightarrow> getDuration d = resolve env dur)
       \<and> (ctx_duration ctx = None \<or> (\<exists>dur. ctx_duration ctx = Some dur \<and> resolve env dur = 0)
            \<longrightarrow> (\<forall>xs ff ys dur. ctx_streams ctx = xs @ ff # ys
                     \<and> (\<forall>x\<in>set xs. \<not> gives_duration env x)
                     \<and> gives_duration env ff \<and> st_duration ff = Some dur
                   \<longrightarrow> getDuration d = resolve env dur)
              \<and> ((\<forall>ff\<in>set (ctx_streams ctx). \<not> gives_duration env ff)
                   \<longrightarrow> getDuration d = 0))
       \<and> (\<forall>needs streams d'. feedCalls needs streams d = Some d'
            \<longrightarrow> getDuration d' = getDuration d)
       \<and> (\<forall>seek_file position. getDuration (willSeek seek_file position d) = getDuration d)
       \<and> (\<forall>stream. getDuration (snd (selectVideoStream stream d)) = getDuration d)
       \<and> getDuration (snd (selectFirstVideoStream d)) = getDuration d
       \<and> getDuration (flushBuffers d) = getDuration d"
proof -
  from assms obtain tm where "Demuxer_load env ctx tm = Inr d" by (rule Demuxer_ctor_Inr)
  then obtain d2 where f: "findStreams env (ctx_streams ctx) (Demuxer_start env ctx tm) = Inr d2"
    and md: "m_duration d = m_duration d2"
    by (rule Demuxer_load_Inr)
  have g: "getDuration d = m_duration d2"
    by (simp add: getDuration_def md)
  have 1: "\<forall>dur. ctx_duration ctx = Some dur \<and> resolve env dur \<noteq> 0
            \<longrightarrow> getDuration d = resolve env dur"
    using findStreams_duration_kept[OF f] by (auto simp: g Demuxer_start_empty)
  have 2: "(\<forall>xs ff ys dur. ctx_streams ctx = xs @ ff # ys
                     \<and> (\<forall>x\<in>set xs. \<not> gives_duration env x)
                     \<and> gives_duration env ff \<and> st_duration ff = Some dur
                   \<longrightarrow> getDuration d = resolve env dur)
              \<and> ((\<forall>ff\<in>set (ctx_streams ctx). \<not> gives_duration env ff)
                   \<longrightarrow> getDuration d = 0)"
    if "ctx_duration ctx = None \<or> (\<exists>dur. ctx_duration ctx = Some dur \<and> resolve env dur = 0)"
  proof -
    from that have z: "m_duration (Demuxer_start env ctx tm) = 0"
      by (auto simp: Demuxer_start_empty)
    from z have "getDuration d = resolve env dur"
      if "ctx_streams ctx = xs @ ff # ys" "\<forall>x\<in>set xs. \<not> gives_duration env x"
        "gives_duration env ff" "st_duration ff = Some dur" for xs ff ys dur
      using that findStreams_duration_first[of env xs ff ys "Demuxer_start env ctx tm" d2 dur] f
      by (simp add: g)
    moreover from z have "getDuration d = 0"
      if "\<forall>ff\<in>set (ctx_streams ctx). \<not> gives_duration env ff"
      using that findStreams_duration_none[OF f] by (simp add: g)
    ultimately show ?thesis by blast
  qed
  have 3: "\<forall>needs streams d'. feedCalls needs streams d = Some d'
            \<longrightarrow> getDuration d' = getDuration d"
    by (simp add: getDuration_def feedCalls_duration)
  have 4: "\<forall>seek_file position. getDuration (willSeek seek_file position d) = getDuration d"
    "\<forall>stream. getDuration (snd (selectVideoStream stream d)) = getDuration d"
    "getDuration (snd (selectFirstVideoStream d)) = getDuration d"
    "getDuration (flushBuffers d) = getDuration d"
    by (simp_all add: getDuration_def willSeek_duration selectVideoStream_duration
        selectFirstVideoStream_duration flushBuffers_def)
  from 1 2 3 4 show ?thesis by blast
qed

theorem C8_witness:
  "(\<exists>d. Demuxer_ctor timed_env ''movie.ogv'' (Some Stopped) = Inr d
        \<and> ctx_duration timed_container = Some 7500000
        \<and> getDuration d = 7500000
        \<and> getDuration (willSeek failing_seek 0 d) = 7500000)
   \<and> (\<exists>d. Demuxer_ctor second_stream_env ''movie.ogv'' (Some Stopped) = Inr d
        \<and> ctx_duration second_stream_container = None
        \<and> getDuration d = 5000000)
   \<and> (\<exists>d. Demuxer_ctor mixed_env ''movie.ogv'' (Some Stopped) = Inr d
        \<and> ctx_duration mixed_container = None
        \<and> getDuration d = 0)"
proof -
  have r: "resolve timed_env 7500000 = 7500000" "resolve second_stream_env 5000000 = 5000000"
    by (simp_all add: env_simps timed_env_def second_stream_env_def AV_TIME_BASE_def
        signed_divide_int_def signed_modulo_int_def)
  obtain d1 where d1: "Demuxer_ctor timed_env ''movie.ogv'' (Some Stopped) = Inr d1"
    using Demuxer_ctor_succeeds[of "''movie.ogv''" "Some Stopped" timed_env]
    by (auto simp: timed_env_def timed_container_def test_env_def container_def ffstream_def named_def)
  have o1: "snd (avformat_open_input timed_env) = Some timed_container"
    by (simp add: timed_env_def test_env_def)
  have c1: "ctx_duration timed_container = Some 7500000"
    by (simp add: timed_container_def container_def)
  from C8_duration_resolution[OF d1 o1] c1 r(1)
  have 1: "getDuration d1 = 7500000" "getDuration (willSeek failing_seek 0 d1) = 7500000"
    by simp_all
  obtain d2 where d2: "Demuxer_ctor second_stream_env ''movie.ogv'' (Some Stopped) = Inr d2"
    using Demuxer_ctor_succeeds[of "''movie.ogv''" "Some Stopped" second_stream_env]
    by (auto simp: second_stream_env_def second_stream_container_def test_env_def container_def ffstream_def named_def)
  have o2: "snd (avformat_open_input second_stream_env) = Some second_stream_container"
    by (simp add: second_stream_env_def test_env_def)
  have c2: "ctx_duration second_stream_container = None"
    "ctx_streams second_stream_container
       = [ffstream 0 AVMEDIA_TYPE_VIDEO None] @ ffstream 1 AVMEDIA_TYPE_VIDEO (Some 5000000) # []"
    "\<forall>x\<in>set [ffstream 0 AVMEDIA_TYPE_VIDEO None]. \<not> gives_duration second_stream_env x"
    "gives_duration second_stream_env (ffstream 1 AVMEDIA_TYPE_VIDEO (Some 5000000))"
    "st_duration (ffstream 1 AVMEDIA_TYPE_VIDEO (Some 5000000)) = Some 5000000"
    by (simp_all add: env_simps second_stream_env_def second_stream_container_def
        gives_duration_def loads_def AV_TIME_BASE_def
        signed_divide_int_def signed_modulo_int_def)
  from C8_duration_resolution[OF d2 o2] c2 r(2)
  have 2: "getDuration d2 = 5000000" by metis
  obtain d3 where d3: "Demuxer_ctor mixed_env ''movie.ogv'' (Some Stopped) = Inr d3"
    using Demuxer_ctor_succeeds[of "''movie.ogv''" "Some Stopped" mixed_env]
    by (auto simp: mixed_env_def mixed_container_def test_env_def container_def ffstream_def named_def)
  have o3: "snd (avformat_open_input mixed_env) = Some mixed_container"
    by (simp add: mixed_env_def test_env_def)
  have c3: "ctx_duration mixed_container = None"
    "\<forall>ff\<in>set (ctx_streams mixed_container). \<not> gives_duration mixed_env ff"
    by (simp_all add: env_simps mixed_env_def mixed_container_def gives_duration_def loads_def)
  from C8_duration_resolution[OF d3 o3] c3
  have 3: "getDuration d3 = 0" by blast
  from d1 c1 1 d2 c2(1) 2 d3 c3(1) 3 show ?thesis by blast
qed

text \<open>
  The claim as it was stated fails twice. A container whose duration is present
  and is zero: the claim gives zero, the constructor takes the five seconds of
  the video stream. A container without duration whose first video stream has
  none and whose second has five seconds: the claim gives zero, the constructor
  takes the five seconds of the second stream. \<open>duration_claimed\<close> is the claim.
\<close>

theorem C8_counterexample:
  "ctx_duration zero_duration_container = Some 0
   \<and> duration_claimed zero_duration_env zero_duration_container = 0
   \<and> map_sum id getDuration (Demuxer_ctor zero_duration_env ''movie.ogv'' (Some Stopped))
       = Inr 5000000
   \<and> ctx_duration second_stream_container = None
   \<and> duration_claimed second_stream_env second_stream_container = 0
   \<and> map_sum id getDuration (Demuxer_ctor second_stream_env ''movie.ogv'' (Some Stopped))
       = Inr 5000000"
  by (simp add: ctor_simps env_simps zero_duration_env_def zero_duration_container_def
      second_stream_env_def second_stream_container_def duration_claimed_def)

text \<open>
  C9. The container has two video streams; the object of stream 0 is allocated
  at address 7 and the object of stream 1 at address 3. The table maps 0 to 7
  and 1 to 3, the set of video streams is ordered by address, and
  \<open>selectFirstVideoStream\<close> selects the stream at address 3, which is stream 1,
  not the first-discovered stream 0.
\<close>

theorem C9_selects_lowest_address:
  "map_sum id m_streams (Demuxer_ctor descending_env ''movie.ogv'' (Some Stopped))
     = Inr [(0, 7), (1, 3)]
   \<and> map_sum id (getStreamsOfType Video) (Demuxer_ctor descending_env ''movie.ogv'' (Some Stopped))
     = Inr [3, 7]
   \<and> map_sum id (getSelectedVideoStream \<circ> snd \<circ> selectFirstVideoStream)
        (Demuxer_ctor descending_env ''movie.ogv'' (Some Stopped))
     = Inr (Some 3)
   \<and> map_sum id (fst \<circ> selectFirstVideoStream)
        (Demuxer_ctor descending_env ''movie.ogv'' (Some Stopped))
     = Inr None"
  by (simp add: ctor_simps env_simps descending_env_def getStreamsOfType_def set_insert_def getStreamKind_def
      selectFirstVideoStream_def selectVideoStream_def connect_def disconnect_def
      getSelectedVideoStream_def)

text \<open>
  C10. When no video stream is selected, \<open>distributePacket\<close> returns false for
  every packet and every requester and changes nothing. A feed call then
  returns; it pushes nothing to any stream and queues nothing; every packet it
  read from the container and every packet it took from the queue is freed; and
  on return the end-of-file flag is set or the requester needs no data.
\<close>

theorem C10_nothing_selected:
  assumes "getSelectedVideoStream d = None"
  shows "(\<forall>p s. distributePacket p s d = (False, d))
       \<and> (\<exists>d'. feedStream needs stream d = Some d'
             \<and> delivered d' = delivered d \<and> objects d' = objects d
             \<and> (didReachEndOfFile d' \<or> \<not> needs (objects d' stream))
             \<and> mset (m_pendingDataForActiveStreams d') \<subseteq># mset (m_pendingDataForActiveStreams d)
             \<and> (\<exists>rd. unread d = rd @ unread d'
                   \<and> mset (freed d') = mset (freed d) + mset rd
                        + (mset (m_pendingDataForActiveStreams d)
                           - mset (m_pendingDataForActiveStreams d'))))"
proof -
  let ?pend = m_pendingDataForActiveStreams
  from assms have sel: "m_connectedVideoStream d = None" by (simp add: getSelectedVideoStream_def)
  then have 1: "\<forall>p s. distributePacket p s d = (False, d)"
    by (simp add: distributePacket_def getSelectedVideoStream_def split: option.splits)
  from sel have "\<not> can_requeue stream d" by (simp add: can_requeue_def)
  from feedStream_terminates[OF this] obtain d' where r: "feedStream needs stream d = Some d'"
    by blast
  let ?P = "\<lambda>x::Demuxer. m_connectedVideoStream x = None \<and> delivered x = delivered d
              \<and> objects x = objects d \<and> mset (?pend x) \<subseteq># mset (?pend d)"
  have "?P d'"
  proof (rule while_option_rule[where P = ?P and b = "feedCond needs stream"
        and c = "feedBody stream" and s = d])
    fix x :: Demuxer
    assume "?P x"
    with feedBody_unselected[of x stream] show "?P (feedBody stream x)"
      by (auto intro: subset_mset.order_trans)
  next
    from r show "while_option (feedCond needs stream) (feedBody stream) d = Some d'"
      by (simp add: feedStream_def)
  next
    from sel show "?P d" by simp
  qed
  then have inv: "delivered d' = delivered d" "objects d' = objects d"
    "mset (?pend d') \<subseteq># mset (?pend d)" by simp_all
  from feedStream_rounds[OF r] obtain k where "d' = fold feedBody (replicate k stream) d"
    by blast
  with feed_rel_fold[of d "replicate k stream"] have "feed_rel d d'" by (simp only:)
  then obtain rd where
    rd: "unread d = rd @ unread d'"
    and cons: "mset (unread d') + accounted d' = mset (unread d) + accounted d"
    by (auto simp: feed_rel_def)
  from rd cons inv(1) have eq: "mset (?pend d') + mset (freed d')
      = mset rd + mset (?pend d) + mset (freed d)"
    by (simp add: accounted_def ac_simps)
  from inv(3) have "mset (?pend d) = mset (?pend d') + (mset (?pend d) - mset (?pend d'))"
    by simp
  with eq have "mset (?pend d') + mset (freed d')
      = mset (?pend d') + (mset (freed d) + mset rd + (mset (?pend d) - mset (?pend d')))"
    by (simp only: ac_simps)
  then have fr: "mset (freed d') = mset (freed d) + mset rd + (mset (?pend d) - mset (?pend d'))"
    by (simp only: add_left_cancel)
  from rd fr have "\<exists>rd. unread d = rd @ unread d'
                   \<and> mset (freed d') = mset (freed d) + mset rd
                        + (mset (?pend d) - mset (?pend d'))" by blast
  with r inv feedStream_stops[OF r] have "\<exists>d'. feedStream needs stream d = Some d'
             \<and> delivered d' = delivered d \<and> objects d' = objects d
             \<and> (didReachEndOfFile d' \<or> \<not> needs (objects d' stream))
             \<and> mset (?pend d') \<subseteq># mset (?pend d)
             \<and> (\<exists>rd. unread d = rd @ unread d'
                   \<and> mset (freed d') = mset (freed d) + mset rd
                        + (mset (?pend d) - mset (?pend d')))" by simp
  with 1 show ?thesis by simp
qed

theorem C10_witness:
  "getSelectedVideoStream ((two_streams scenario_packets [packet 99 0])
                             \<lparr>m_connectedVideoStream := None\<rparr>) = None
   \<and> map_of (m_streams ((two_streams scenario_packets [packet 99 0])
                             \<lparr>m_connectedVideoStream := None\<rparr>)) (stream_index (packet 101 0))
       = Some 1
   \<and> fst (distributePacket (packet 101 0) 1
            ((two_streams scenario_packets [packet 99 0])\<lparr>m_connectedVideoStream := None\<rparr>))
       = False
   \<and> (\<exists>d'. feedStream needs_two 1
              ((two_streams scenario_packets [packet 99 0])\<lparr>m_connectedVideoStream := None\<rparr>)
            = Some d'
         \<and> delivered d' = [] \<and> didReachEndOfFile d'
         \<and> freed d' = packet 99 0 # scenario_packets)"
proof -
  let ?d = "(two_streams scenario_packets [packet 99 0])\<lparr>m_connectedVideoStream := None\<rparr>"
  have h: "getSelectedVideoStream ?d = None" by (simp add: getSelectedVideoStream_def)
  have m: "map_of (m_streams ?d) (stream_index (packet 101 0)) = Some 1"
    by (simp add: scenario_simps)
  note c = C10_nothing_selected[OF h, of needs_two 1]
  from c have 1: "fst (distributePacket (packet 101 0) 1 ?d) = False" by simp
  from c obtain d' where r: "feedStream needs_two 1 ?d = Some d'"
    and dl: "delivered d' = delivered ?d" by blast
  have "map_option (\<lambda>x. (freed x, didReachEndOfFile x)) (feedStream needs_two 1 ?d)
      = Some (packet 99 0 # scenario_packets, True)"
    by (simp add: feed_simps scenario_simps)
  with r have "freed d' = packet 99 0 # scenario_packets" "didReachEndOfFile d'" by simp_all
  moreover from dl have "delivered d' = []" by (simp add: scenario_simps)
  ultimately show ?thesis using h m 1 r by blast
qed

end
